theory Spec2Isabelle
  imports Complex_Main "HOL-Library.Log_Nat" "HOL-Library.Char_ord" "HOL-Library.List_Lexorder"
begin

section \<open>Python values: JSON documents, exceptions, text\<close>

text \<open>
  The handlers of \<^verbatim>\<open>mcp_sse_handler.py\<close> build Python dicts that are serialised with
  \<^verbatim>\<open>json.dumps\<close>. A dict literal is an association list in the order the source
  writes its keys.
\<close>

datatype json =
    JNull
  | JBool bool
  | JInt int
  | JStr string
  | JArr "json list"
  | JObj "(string \<times> json) list"

text \<open>\<^verbatim>\<open>d.get(k)\<close> on a dict: the first binding of the key, \<open>None\<close> when there is none.\<close>

fun jget :: "json \<Rightarrow> string \<Rightarrow> json option" where
  "jget (JObj kvs) k = map_of kvs k"
| "jget _ k = None"

text \<open>A raised Python exception, carrying \<^verbatim>\<open>str(e)\<close>.\<close>

datatype exn = Exn string

definition nl :: string where
  "nl = [CHR 0x0A]"

text \<open>The check mark U+2705 that starts the confirmation texts, as its UTF-8 bytes.\<close>

definition check_mark :: string where
  "check_mark = [CHR 0xE2, CHR 0x9C, CHR 0x85]"

fun show_nat :: "nat \<Rightarrow> string" where
  "show_nat n =
     (if n < 10 then [''0123456789'' ! n]
      else show_nat (n div 10) @ [''0123456789'' ! (n mod 10)])"

definition show_int :: "int \<Rightarrow> string" where
  "show_int i = (if i < 0 then ''-'' @ show_nat (nat (- i)) else show_nat (nat i))"

text \<open>Python truthiness of an optional integer and of an optional string.\<close>

fun falsy_int :: "int option \<Rightarrow> bool" where
  "falsy_int None = True"
| "falsy_int (Some i) = (i = 0)"

fun falsy_str :: "string option \<Rightarrow> bool" where
  "falsy_str None = True"
| "falsy_str (Some s) = (s = [])"

text \<open>\<^verbatim>\<open>xs[:n]\<close>: a negative bound counts from the end.\<close>

definition py_slice_to :: "int \<Rightarrow> 'a list \<Rightarrow> 'a list" where
  "py_slice_to n xs =
     (if 0 \<le> n then take (nat n) xs else take (nat (int (length xs) + n)) xs)"

section \<open>Floating-point values\<close>

text \<open>
  A float is a finite rational value, an infinity or NaN. The sign of zero is not
  represented: the only divisor of the program is a product of two norms, which is never
  the negative zero, and a zero result is only ever compared.
\<close>

datatype fl = Fin rat | PInf | NInf | NaN

fun fl_lt :: "fl \<Rightarrow> fl \<Rightarrow> bool" where
  "fl_lt (Fin a) (Fin b) = (a < b)"
| "fl_lt (Fin a) PInf = True"
| "fl_lt NInf (Fin b) = True"
| "fl_lt NInf PInf = True"
| "fl_lt _ _ = False"

fun fl_ge :: "fl \<Rightarrow> fl \<Rightarrow> bool" where
  "fl_ge (Fin a) (Fin b) = (b \<le> a)"
| "fl_ge (Fin a) NInf = True"
| "fl_ge PInf (Fin b) = True"
| "fl_ge PInf PInf = True"
| "fl_ge PInf NInf = True"
| "fl_ge NInf NInf = True"
| "fl_ge _ _ = False"

fun is_inf :: "fl \<Rightarrow> bool" where
  "is_inf PInf = True"
| "is_inf NInf = True"
| "is_inf _ = False"

fun is_finite :: "fl \<Rightarrow> bool" where
  "is_finite (Fin a) = True"
| "is_finite _ = False"

fun is_zero :: "fl \<Rightarrow> bool" where
  "is_zero (Fin a) = (a = 0)"
| "is_zero _ = False"

fun is_neg :: "fl \<Rightarrow> bool" where
  "is_neg (Fin a) = (a < 0)"
| "is_neg NInf = True"
| "is_neg _ = False"

fun fin_val :: "fl \<Rightarrow> rat" where
  "fin_val (Fin a) = a"
| "fin_val _ = 0"

definition signed_inf :: "bool \<Rightarrow> fl" where
  "signed_inf neg = (if neg then NInf else PInf)"

subsection \<open>Rounding to nearest, ties to even\<close>

definition rne :: "rat \<Rightarrow> int" where
  "rne x =
     (let f = \<lfloor>x\<rfloor>; d = x - of_int f
      in if d < 1 / 2 then f else if 1 / 2 < d then f + 1 else if even f then f else f + 1)"

text \<open>The binary exponent of a positive rational: \<open>2 powi ilog2 x \<le> x < 2 powi (ilog2 x + 1)\<close>.\<close>

definition ilog2 :: "rat \<Rightarrow> int" where
  "ilog2 x =
     (let k = bitlen (fst (quotient_of x)) - bitlen (snd (quotient_of x))
      in if 2 powi k \<le> x then k else k - 1)"

text \<open>
  The value of a binary format with \<open>p\<close> bits of precision and exponents
  \<open>emin .. emax\<close> that is nearest to \<open>x\<close>; an overflow is an infinity.
\<close>

definition round_nearest :: "nat \<Rightarrow> int \<Rightarrow> int \<Rightarrow> rat \<Rightarrow> fl" where
  "round_nearest p emin emax x =
     (if x = 0 then Fin 0
      else
        let u = 2 powi (max (ilog2 \<bar>x\<bar>) emin - int p + 1);
            y = of_int (rne (x / u)) * u
        in if 2 powi (emax + 1) \<le> \<bar>y\<bar> then signed_inf (x < 0) else Fin y)"

definition round32 :: "rat \<Rightarrow> fl" where
  "round32 = round_nearest 24 (- 126) 127"

definition round64 :: "rat \<Rightarrow> fl" where
  "round64 = round_nearest 53 (- 1022) 1023"

subsection \<open>Multiplication and division\<close>

text \<open>IEEE 754 special cases first, then the exact result rounded by \<open>rnd\<close>.\<close>

definition fl_mul :: "(rat \<Rightarrow> fl) \<Rightarrow> fl \<Rightarrow> fl \<Rightarrow> fl" where
  "fl_mul rnd a b =
     (if a = NaN \<or> b = NaN then NaN
      else if is_inf a \<or> is_inf b then
        (if is_zero a \<or> is_zero b then NaN else signed_inf (is_neg a \<noteq> is_neg b))
      else rnd (fin_val a * fin_val b))"

definition fl_div :: "(rat \<Rightarrow> fl) \<Rightarrow> fl \<Rightarrow> fl \<Rightarrow> fl" where
  "fl_div rnd a b =
     (if a = NaN \<or> b = NaN then NaN
      else if is_inf a then (if is_inf b then NaN else signed_inf (is_neg a \<noteq> is_neg b))
      else if is_inf b then Fin 0
      else if is_zero b then (if is_zero a then NaN else signed_inf (is_neg a))
      else rnd (fin_val a / fin_val b))"

subsection \<open>The built-in \<^verbatim>\<open>round(x, 4)\<close>\<close>

text \<open>
  CPython rounds the exact value of the float to four decimals, ties to even, and
  converts the decimal back to the nearest float; infinities and NaN round to themselves.
\<close>

fun py_round4 :: "fl \<Rightarrow> fl" where
  "py_round4 (Fin x) = round64 (of_int (rne (x * 10000)) / 10000)"
| "py_round4 v = v"

text \<open>\<^verbatim>\<open>min(xs)\<close>: the first item, replaced by each later item that is \<open><\<close> it.\<close>

fun py_min :: "fl list \<Rightarrow> exn + fl" where
  "py_min [] = Inl (Exn ''min() arg is an empty sequence'')"
| "py_min (x # xs) = Inr (foldl (\<lambda>m s. if fl_lt s m then s else m) x xs)"

section \<open>The note store and the environment\<close>

text \<open>
  A row of the table \<^verbatim>\<open>notes\<close> (\<^verbatim>\<open>server.py\<close>, \<^verbatim>\<open>init_database\<close>). The embedding
  column holds the float32 vector that \<^verbatim>\<open>tobytes\<close> wrote and \<^verbatim>\<open>frombuffer\<close> reads back.
  The table is kept in the order of its integer primary key, which is the order a scan
  without \<^verbatim>\<open>ORDER BY\<close> returns; \<open>last_id\<close> is the AUTOINCREMENT counter, taken to be
  below the largest rowid. A text is the list of its characters, and texts are taken to be
  Latin-1, so that \<^verbatim>\<open>content[:100]\<close> is \<open>take 100\<close>.
\<close>

record note_row =
  n_id :: int
  n_content :: string
  n_category :: string
  n_timestamp :: string
  n_embedding :: "fl list option"

record store =
  note_rows :: "note_row list"
  last_id :: int

text \<open>
  What the handler takes from outside the repository: the configured key, SHA-256, the
  embedding model (\<^verbatim>\<open>get_model().encode([text])[0]\<close>, which may raise), numpy's dot
  product and norm on float32 arrays of equal length, \<^verbatim>\<open>repr\<close> of a float and the clock.
\<close>

record env =
  api_key :: string
  sha256_hex :: "string \<Rightarrow> string"
  encode :: "string \<Rightarrow> exn + fl list"
  np_dot :: "fl list \<Rightarrow> fl list \<Rightarrow> fl"
  np_norm :: "fl list \<Rightarrow> fl"
  float_repr :: "fl \<Rightarrow> string"
  now_iso :: string

definition API_KEY_HASH :: "env \<Rightarrow> string" where
  "API_KEY_HASH E = sha256_hex E (api_key E)"

section \<open>Requests\<close>

text \<open>
  The arguments of a tool call, typed as the tool catalog declares them; every key may be
  absent. An integer argument is one that SQLite takes, within the signed 64-bit range.
  \<open>h_json\<close> is what \<^verbatim>\<open>request.get_json()\<close> gives, or the exception it raises.
\<close>

record tool_args =
  a_query :: "string option"
  a_limit :: "int option"
  a_content :: "string option"
  a_category :: "string option"
  a_note_id :: "int option"

record tool_params =
  p_name :: "string option"
  p_arguments :: "tool_args option"

record rpc_request =
  r_method :: "string option"
  r_params :: "tool_params option"
  r_id :: "json option"

record http_request =
  h_method :: string
  h_api_key :: "string option"
  h_authorization :: "string option"
  h_json :: "exn + rpc_request"

definition no_args :: tool_args where
  "no_args = \<lparr>a_query = None, a_limit = None, a_content = None, a_category = None,
     a_note_id = None\<rparr>"

definition no_params :: tool_params where
  "no_params = \<lparr>p_name = None, p_arguments = None\<rparr>"

definition no_data :: rpc_request where
  "no_data = \<lparr>r_method = None, r_params = None, r_id = None\<rparr>"

section \<open>Authentication\<close>

definition verify_auth :: "env \<Rightarrow> http_request \<Rightarrow> bool" where
  "verify_auth E req =
     (case h_api_key req of
        Some (c # cs) \<Rightarrow> sha256_hex E (c # cs) = API_KEY_HASH E
      | _ \<Rightarrow>
        (case h_authorization req of
           Some auth_header \<Rightarrow>
             if auth_header \<noteq> [] \<and> take 7 auth_header = ''Bearer ''
             then sha256_hex E (drop 7 auth_header) = API_KEY_HASH E
             else False
         | None \<Rightarrow> False))"

section \<open>Tools\<close>

definition content_result :: "string \<Rightarrow> json" where
  "content_result text = JObj [(''content'', JArr [JObj [(''type'', JStr ''text''), (''text'', JStr text)]])]"

definition error_result :: "int \<Rightarrow> string \<Rightarrow> json" where
  "error_result code message = JObj [(''error'', JObj [(''code'', JInt code), (''message'', JStr message)])]"

subsection \<open>search_notes\<close>

record search_result =
  sr_id :: int
  sr_content :: string
  sr_category :: string
  sr_similarity :: fl

text \<open>\<^verbatim>\<open>np.dot\<close> raises ValueError on one-dimensional arrays of different lengths.\<close>

definition shape_error :: "nat \<Rightarrow> nat \<Rightarrow> exn" where
  "shape_error n m =
     Exn (''shapes ('' @ show_nat n @ '',) and ('' @ show_nat m @ '',) not aligned: ''
          @ show_nat n @ '' (dim 0) != '' @ show_nat m @ '' (dim 0)'')"

text \<open>
  \<^verbatim>\<open>float(np.dot(query_emb, note_emb) / (np.linalg.norm(query_emb) * np.linalg.norm(note_emb)))\<close>
  in float32 arithmetic.
\<close>

definition cosine32 :: "env \<Rightarrow> fl list \<Rightarrow> fl list \<Rightarrow> exn + fl" where
  "cosine32 E query_emb note_emb =
     (if length query_emb = length note_emb
      then Inr (fl_div round32 (np_dot E query_emb note_emb)
                  (fl_mul round32 (np_norm E query_emb) (np_norm E note_emb)))
      else Inl (shape_error (length query_emb) (length note_emb)))"

text \<open>The rows of \<^verbatim>\<open>SELECT ... FROM notes WHERE embedding_vector IS NOT NULL\<close>.\<close>

definition select_embedded :: "store \<Rightarrow> (note_row \<times> fl list) list" where
  "select_embedded s =
     List.map_filter (\<lambda>r. case n_embedding r of None \<Rightarrow> None | Some e \<Rightarrow> Some (r, e)) (note_rows s)"

text \<open>The literal \<^verbatim>\<open>0.4\<close> of the threshold test: the float nearest to 4/10.\<close>

definition RELEVANCE_FLOOR :: fl where
  "RELEVANCE_FLOOR = round64 (4 / 10)"

text \<open>The loop over the fetched rows, appending to \<open>results\<close>.\<close>

fun search_loop :: "env \<Rightarrow> fl list \<Rightarrow> (note_row \<times> fl list) list \<Rightarrow> search_result list
    \<Rightarrow> exn + search_result list" where
  "search_loop E query_emb [] results = Inr results"
| "search_loop E query_emb ((r, note_emb) # rows) results =
     (case cosine32 E query_emb note_emb of
        Inl e \<Rightarrow> Inl e
      | Inr sim \<Rightarrow>
          search_loop E query_emb rows
            (if fl_ge sim RELEVANCE_FLOOR
             then results @ [\<lparr>sr_id = n_id r, sr_content = n_content r,
                    sr_category = n_category r, sr_similarity = py_round4 sim\<rparr>]
             else results))"

text \<open>
  \<^verbatim>\<open>list.sort(key=..., reverse=True)\<close> is a stable sort that compares keys with \<open><\<close>; with
  \<^verbatim>\<open>reverse=True\<close> CPython reverses the list, sorts it and reverses it again. The sort
  is modelled by the stable insertion sort; the keys of the program are never NaN, and on
  such keys every stable sort gives the same list.
\<close>

fun insort_lt :: "('a \<Rightarrow> fl) \<Rightarrow> 'a \<Rightarrow> 'a list \<Rightarrow> 'a list" where
  "insort_lt key x [] = [x]"
| "insort_lt key x (y # ys) =
     (if fl_lt (key x) (key y) then x # y # ys else y # insort_lt key x ys)"

definition py_sort :: "('a \<Rightarrow> fl) \<Rightarrow> 'a list \<Rightarrow> 'a list" where
  "py_sort key xs = foldl (\<lambda>acc x. insort_lt key x acc) [] xs"

definition py_sort_reverse :: "('a \<Rightarrow> fl) \<Rightarrow> 'a list \<Rightarrow> 'a list" where
  "py_sort_reverse key xs = rev (py_sort key (rev xs))"

text \<open>\<open>search_ranked\<close> is the body of \<^verbatim>\<open>search_notes\<close> up to \<open>(top_results, results)\<close>.\<close>

definition search_ranked :: "env \<Rightarrow> store \<Rightarrow> string \<Rightarrow> int
    \<Rightarrow> exn + (search_result list \<times> search_result list)" where
  "search_ranked E s query limit =
     (case encode E query of
        Inl e \<Rightarrow> Inl e
      | Inr query_emb \<Rightarrow>
        (case search_loop E query_emb (select_embedded s) [] of
           Inl e \<Rightarrow> Inl e
         | Inr found \<Rightarrow>
             let results = py_sort_reverse sr_similarity found
             in Inr (py_slice_to limit results, results)))"

definition result_line :: "env \<Rightarrow> search_result \<Rightarrow> string" where
  "result_line E r =
     ''[ID:'' @ show_int (sr_id r) @ ''] ['' @ sr_category r @ ''] (similarity: ''
     @ float_repr E (sr_similarity r) @ '')'' @ nl @ sr_content r @ nl @ nl"

definition search_text :: "env \<Rightarrow> search_result list \<Rightarrow> search_result list \<Rightarrow> string" where
  "search_text E top_results results =
     ''Found '' @ show_nat (length top_results) @ '' relevant notes (from ''
     @ show_nat (length results) @ '' total matches):'' @ nl @ nl
     @ concat (map (result_line E) top_results)"

definition search_notes :: "env \<Rightarrow> store \<Rightarrow> string \<Rightarrow> int \<Rightarrow> exn + json" where
  "search_notes E s query limit =
     (case search_ranked E s query limit of
        Inl e \<Rightarrow> Inl e
      | Inr (top_results, results) \<Rightarrow> Inr (content_result (search_text E top_results results)))"

subsection \<open>get_stats\<close>

definition stats_line :: "note_row list \<Rightarrow> string \<Rightarrow> string" where
  "stats_line rows cat =
     ''  - '' @ cat @ '': '' @ show_nat (length (filter (\<lambda>r. n_category r = cat) rows)) @ nl"

definition get_stats :: "store \<Rightarrow> json" where
  "get_stats s =
     content_result
       (''Neural Memory Statistics:'' @ nl @ nl @ ''Total notes: '' @ show_nat (length (note_rows s))
        @ nl @ nl @ ''By category:'' @ nl
        @ concat (map (stats_line (note_rows s)) (sort (remdups (map n_category (note_rows s))))))"

subsection \<open>add_note\<close>

definition add_note :: "env \<Rightarrow> store \<Rightarrow> string \<Rightarrow> string \<Rightarrow> exn + json \<times> store" where
  "add_note E s content category =
     (if content = [] then Inr (error_result (- 32602) ''Content required'', s)
      else
        (case encode E content of
           Inl e \<Rightarrow> Inl e
         | Inr embedding \<Rightarrow>
             let note_id = fold max (map n_id (note_rows s)) (last_id s) + 1;
                 row = \<lparr>n_id = note_id, n_content = content, n_category = category,
                         n_timestamp = now_iso E, n_embedding = Some embedding\<rparr>
             in Inr (content_result
                       (check_mark @ '' Added note #'' @ show_int note_id @ nl @ ''Category: ''
                        @ category @ nl @ ''Content: '' @ content),
                     \<lparr>note_rows = note_rows s @ [row], last_id = note_id\<rparr>)))"

subsection \<open>update_note\<close>

definition update_note :: "env \<Rightarrow> store \<Rightarrow> int option \<Rightarrow> string option \<Rightarrow> string option
    \<Rightarrow> exn + json \<times> store" where
  "update_note E s note_id content category =
     (if falsy_int note_id \<or> falsy_str content
      then Inr (error_result (- 32602) ''Note ID and content required'', s)
      else
        (case (note_id, content) of
           (Some nid, Some c) \<Rightarrow>
             (case find (\<lambda>r. n_id r = nid) (note_rows s) of
                None \<Rightarrow> Inr (error_result (- 32602) (''Note #'' @ show_int nid @ '' not found''), s)
              | Some existing \<Rightarrow>
                (case encode E c of
                   Inl e \<Rightarrow> Inl e
                 | Inr embedding \<Rightarrow>
                     let final_category =
                           (case category of
                              Some (k # ks) \<Rightarrow> k # ks
                            | _ \<Rightarrow> n_category existing)
                     in Inr (content_result
                               (check_mark @ '' Updated note #'' @ show_int nid @ nl
                                @ ''Category: '' @ final_category @ nl @ ''Content: '' @ c),
                             s\<lparr>note_rows :=
                                 map (\<lambda>r. if n_id r = nid
                                           then r\<lparr>n_content := c, n_category := final_category,
                                                  n_timestamp := now_iso E,
                                                  n_embedding := Some embedding\<rparr>
                                           else r)
                                   (note_rows s)\<rparr>)))
         | _ \<Rightarrow> Inr (error_result (- 32602) ''Note ID and content required'', s)))"

subsection \<open>delete_note\<close>

definition delete_note :: "store \<Rightarrow> int option \<Rightarrow> json \<times> store" where
  "delete_note s note_id =
     (case note_id of
        None \<Rightarrow> (error_result (- 32602) ''Note ID required'', s)
      | Some nid \<Rightarrow>
          if nid = 0 then (error_result (- 32602) ''Note ID required'', s)
          else
            (case find (\<lambda>r. n_id r = nid) (note_rows s) of
               None \<Rightarrow> (error_result (- 32602) (''Note #'' @ show_int nid @ '' not found''), s)
             | Some existing \<Rightarrow>
                 (content_result
                    (check_mark @ '' Deleted note #'' @ show_int nid @ nl @ ''Was: [''
                     @ n_category existing @ ''] '' @ take 100 (n_content existing) @ ''...''),
                  s\<lparr>note_rows := filter (\<lambda>r. n_id r \<noteq> nid) (note_rows s)\<rparr>)))"

section \<open>The protocol dispatcher\<close>

text \<open>\<^verbatim>\<open>d.get(k, default)\<close> for a key that may be absent.\<close>

fun get_default :: "'a option \<Rightarrow> 'a \<Rightarrow> 'a" where
  "get_default None d = d"
| "get_default (Some v) d = v"

definition handle_tool_call :: "env \<Rightarrow> store \<Rightarrow> tool_params \<Rightarrow> exn + json \<times> store" where
  "handle_tool_call E s params =
     (let tool_name = p_name params;
          args = get_default (p_arguments params) no_args
      in
        if tool_name = Some ''search_neural_memory'' then
          (case search_notes E s (get_default (a_query args) []) (get_default (a_limit args) 5) of
             Inl e \<Rightarrow> Inl e
           | Inr r \<Rightarrow> Inr (r, s))
        else if tool_name = Some ''neural_stats'' then Inr (get_stats s, s)
        else if tool_name = Some ''add_note'' then
          add_note E s (get_default (a_content args) []) (get_default (a_category args) ''general'')
        else if tool_name = Some ''update_note'' then
          update_note E s (a_note_id args) (a_content args) (a_category args)
        else if tool_name = Some ''delete_note'' then Inr (delete_note s (a_note_id args))
        else Inr (error_result (- 32602) (''Unknown tool: '' @ get_default tool_name ''None''), s))"

definition initialize_result :: json where
  "initialize_result =
     JObj [(''protocolVersion'', JStr ''2024-11-05''),
           (''capabilities'', JObj [(''tools'', JObj [])]),
           (''serverInfo'', JObj [(''name'', JStr ''neural-memory''), (''version'', JStr ''1.0.0'')])]"

definition tool_entry :: "string \<Rightarrow> string \<Rightarrow> json \<Rightarrow> json" where
  "tool_entry name description schema =
     JObj [(''name'', JStr name), (''description'', JStr description), (''inputSchema'', schema)]"

definition tools_list_result :: json where
  "tools_list_result =
     JObj [(''tools'', JArr [
       tool_entry ''search_neural_memory'' ''Search through notes using semantic similarity''
         (JObj [(''type'', JStr ''object''),
                (''properties'', JObj [
                   (''query'', JObj [(''type'', JStr ''string''), (''description'', JStr ''Search query'')]),
                   (''limit'', JObj [(''type'', JStr ''integer''), (''default'', JInt 5),
                                     (''minimum'', JInt 1), (''maximum'', JInt 20)])]),
                (''required'', JArr [JStr ''query''])]),
       tool_entry ''neural_stats'' ''Get statistics about stored notes''
         (JObj [(''type'', JStr ''object''), (''properties'', JObj [])]),
       tool_entry ''add_note'' ''Add new note with automatic embedding''
         (JObj [(''type'', JStr ''object''),
                (''properties'', JObj [
                   (''content'', JObj [(''type'', JStr ''string''), (''description'', JStr ''Note content'')]),
                   (''category'', JObj [(''type'', JStr ''string''), (''default'', JStr ''general'')])]),
                (''required'', JArr [JStr ''content''])]),
       tool_entry ''update_note'' ''Update existing note by ID''
         (JObj [(''type'', JStr ''object''),
                (''properties'', JObj [
                   (''note_id'', JObj [(''type'', JStr ''integer'')]),
                   (''content'', JObj [(''type'', JStr ''string'')]),
                   (''category'', JObj [(''type'', JStr ''string'')])]),
                (''required'', JArr [JStr ''note_id'', JStr ''content''])]),
       tool_entry ''delete_note'' ''Delete note by ID''
         (JObj [(''type'', JStr ''object''),
                (''properties'', JObj [(''note_id'', JObj [(''type'', JStr ''integer'')])]),
                (''required'', JArr [JStr ''note_id''])])])]"

text \<open>The \<^verbatim>\<open>try\<close> of \<^verbatim>\<open>handle_mcp_request\<close> turns any exception into the code -32603.\<close>

definition handle_mcp_request :: "env \<Rightarrow> store \<Rightarrow> string \<Rightarrow> tool_params \<Rightarrow> json \<times> store" where
  "handle_mcp_request E s method params =
     (if method = ''initialize'' then (initialize_result, s)
      else if method = ''tools/list'' then (tools_list_result, s)
      else if method = ''tools/call'' then
        (case handle_tool_call E s params of
           Inl (Exn msg) \<Rightarrow> (error_result (- 32603) msg, s)
         | Inr r \<Rightarrow> r)
      else (error_result (- 32601) (''Method not found: '' @ method), s))"

text \<open>
  \<open>generate\<close> is the generator of \<^verbatim>\<open>mcp_sse\<close>; its value is the JSON document of the one
  \<^verbatim>\<open>data:\<close> event it yields.
\<close>

definition generate :: "env \<Rightarrow> store \<Rightarrow> http_request \<Rightarrow> json \<times> store" where
  "generate E s req =
     (case (if h_method req = ''POST'' then h_json req else Inr no_data) of
        Inl (Exn msg) \<Rightarrow>
          (JObj [(''jsonrpc'', JStr ''2.0''), (''id'', JInt 1),
                 (''error'', JObj [(''code'', JInt (- 32603)), (''message'', JStr msg)])], s)
      | Inr data \<Rightarrow>
          let method = get_default (r_method data) ''initialize'';
              params = get_default (r_params data) no_params;
              req_id = get_default (r_id data) (JInt 1);
              (result, s') = handle_mcp_request E s method params
          in (JObj [(''jsonrpc'', JStr ''2.0''), (''id'', req_id), (''result'', result)], s'))"

datatype http_response = JsonResponse nat json | EventStream json

definition mcp_sse :: "env \<Rightarrow> store \<Rightarrow> http_request \<Rightarrow> http_response \<times> store" where
  "mcp_sse E s req =
     (if \<not> verify_auth E req then (JsonResponse 401 (JObj [(''error'', JStr ''Unauthorized'')]), s)
      else let (event, s') = generate E s req in (EventStream event, s'))"

section \<open>The embedding consistency check\<close>

text \<open>
  \<^verbatim>\<open>embedding_check.py\<close>. The calibration file holds the phrases and their embeddings.
  From outside come the model (\<^verbatim>\<open>model.encode(CALIBRATION_PHRASES)\<close>), numpy's dot
  product of a float32 and a float64 array of equal length, the norms of the two arrays,
  and the format \<^verbatim>\<open>:.4f\<close>.
\<close>

record calibration =
  c_phrases :: "string list"
  c_embeddings :: "fl list list"

record cal_env =
  encode_all :: "string list \<Rightarrow> exn + fl list list"
  dot64 :: "fl list \<Rightarrow> fl list \<Rightarrow> fl"
  norm_current :: "fl list \<Rightarrow> fl"
  norm_saved :: "fl list \<Rightarrow> fl"
  fmt_4f :: "fl \<Rightarrow> string"

definition SIMILARITY_THRESHOLD :: fl where
  "SIMILARITY_THRESHOLD = round64 (99 / 100)"

definition CALIBRATION_PHRASES :: "string list" where
  "CALIBRATION_PHRASES =
     [''The quick brown fox jumps over the lazy dog.'',
      ''Semantic search uses vector embeddings.'',
      ''Python programming and machine learning.'']"

definition cosine_similarity :: "cal_env \<Rightarrow> fl list \<Rightarrow> fl list \<Rightarrow> exn + fl" where
  "cosine_similarity C a b =
     (if length a = length b
      then Inr (fl_div round64 (dot64 C a b) (fl_mul round64 (norm_current C a) (norm_saved C b)))
      else Inl (shape_error (length a) (length b)))"

definition compute_calibration :: "cal_env \<Rightarrow> exn + calibration" where
  "compute_calibration C =
     (case encode_all C CALIBRATION_PHRASES of
        Inl e \<Rightarrow> Inl e
      | Inr embeddings \<Rightarrow> Inr \<lparr>c_phrases = CALIBRATION_PHRASES, c_embeddings = embeddings\<rparr>)"

text \<open>The loop over \<^verbatim>\<open>zip(current, saved['embeddings'])\<close>.\<close>

fun similarities_loop :: "cal_env \<Rightarrow> (fl list \<times> fl list) list \<Rightarrow> exn + fl list" where
  "similarities_loop C [] = Inr []"
| "similarities_loop C ((cur, saved_emb) # rest) =
     (case cosine_similarity C cur saved_emb of
        Inl e \<Rightarrow> Inl e
      | Inr sim \<Rightarrow>
        (case similarities_loop C rest of
           Inl e \<Rightarrow> Inl e
         | Inr sims \<Rightarrow> Inr (sim # sims)))"

text \<open>
  \<open>check_consistency\<close> takes the content of the calibration file (\<open>None\<close> when the file
  does not exist) and returns the pair \<open>(is_consistent, message)\<close> with the file's content
  afterwards.
\<close>

definition check_consistency :: "cal_env \<Rightarrow> calibration option
    \<Rightarrow> exn + (bool \<times> string) \<times> calibration option" where
  "check_consistency C saved =
     (case saved of
        None \<Rightarrow>
          (case compute_calibration C of
             Inl e \<Rightarrow> Inl e
           | Inr calibration \<Rightarrow> Inr ((True, ''Initial calibration created''), Some calibration))
      | Some cal \<Rightarrow>
          (case encode_all C CALIBRATION_PHRASES of
             Inl e \<Rightarrow> Inl e
           | Inr current \<Rightarrow>
             (case similarities_loop C (zip current (c_embeddings cal)) of
                Inl e \<Rightarrow> Inl e
              | Inr similarities \<Rightarrow>
                (case py_min similarities of
                   Inl e \<Rightarrow> Inl e
                 | Inr min_sim \<Rightarrow>
                     if fl_ge min_sim SIMILARITY_THRESHOLD
                     then Inr ((True, ''Model consistent (min_sim='' @ fmt_4f C min_sim @ '')''), saved)
                     else Inr ((False, ''MODEL DRIFT DETECTED! min_sim='' @ fmt_4f C min_sim
                                       @ '' < 0.99''), saved)))))"

section \<open>A concrete deployment\<close>

text \<open>
  An environment and a store on which the definitions are evaluated. The embeddings have
  one component, for which the dot product is the product and the norm the absolute
  value, both exact on small integers; the digest is an injective stand-in for SHA-256;
  \<open>demo_repr\<close> is \<^verbatim>\<open>repr\<close> on integral values.
\<close>

definition demo_dot :: "fl list \<Rightarrow> fl list \<Rightarrow> fl" where
  "demo_dot a b = Fin (sum_list (map2 (\<lambda>x y. fin_val x * fin_val y) a b))"

definition demo_norm :: "fl list \<Rightarrow> fl" where
  "demo_norm v = Fin (sum_list (map (\<lambda>x. \<bar>fin_val x\<bar>) v))"

fun demo_repr :: "fl \<Rightarrow> string" where
  "demo_repr (Fin q) = show_int \<lfloor>q\<rfloor> @ ''.0''"
| "demo_repr PInf = ''inf''"
| "demo_repr NInf = ''-inf''"
| "demo_repr NaN = ''nan''"

definition demo_env :: env where
  "demo_env =
     \<lparr>api_key = ''s3cret'', sha256_hex = (\<lambda>x. x),
      encode = (\<lambda>t. Inr [Fin (1 + of_nat (length t))]),
      np_dot = demo_dot, np_norm = demo_norm, float_repr = demo_repr,
      now_iso = ''2024-01-02T03:04:05''\<rparr>"

definition sky_note :: note_row where
  "sky_note =
     \<lparr>n_id = 1, n_content = ''The sky is blue'', n_category = ''general'',
      n_timestamp = ''2024-01-01T00:00:00'', n_embedding = Some [Fin 16]\<rparr>"

definition ocean_note :: note_row where
  "ocean_note =
     \<lparr>n_id = 2, n_content = ''The ocean is deep'', n_category = ''nature'',
      n_timestamp = ''2024-01-01T00:00:01'', n_embedding = Some [Fin 18]\<rparr>"

definition demo_store :: store where
  "demo_store = \<lparr>note_rows = [sky_note, ocean_note], last_id = 2\<rparr>"

definition empty_store :: store where
  "empty_store = \<lparr>note_rows = [], last_id = 0\<rparr>"

section \<open>Well-formed stores and the body of the search loop\<close>

text \<open>
  The stores that \<open>add_note\<close>, \<open>update_note\<close> and \<open>delete_note\<close> build from the empty
  table: the primary keys are positive, ascend in table order and do not exceed the
  AUTOINCREMENT counter.
\<close>

definition store_ok :: "store \<Rightarrow> bool" where
  "store_ok s \<longleftrightarrow>
     sorted_wrt (<) (map n_id (note_rows s)) \<and> 0 \<le> last_id s
     \<and> list_all (\<lambda>r. 0 < n_id r \<and> n_id r \<le> last_id s) (note_rows s)"

text \<open>What one iteration of the loop of \<open>search_notes\<close> appends for a fetched row, if anything.\<close>

definition scored :: "env \<Rightarrow> fl list \<Rightarrow> note_row \<times> fl list \<Rightarrow> search_result option" where
  "scored E query_emb row =
     (case cosine32 E query_emb (snd row) of
        Inl e \<Rightarrow> None
      | Inr sim \<Rightarrow>
          if fl_ge sim RELEVANCE_FLOOR
          then Some \<lparr>sr_id = n_id (fst row), sr_content = n_content (fst row),
                 sr_category = n_category (fst row), sr_similarity = py_round4 sim\<rparr>
          else None)"

section \<open>The specification of a similarity\<close>

text \<open>
  The specification's formula for the similarity of a note, \<^verbatim>\<open>dot(q, e) / (norm(q) * norm(e))\<close>,
  in float32 arithmetic.
\<close>

definition spec_cosine :: "env \<Rightarrow> fl list \<Rightarrow> fl list \<Rightarrow> fl" where
  "spec_cosine E q e = fl_div round32 (np_dot E q e) (fl_mul round32 (np_norm E q) (np_norm E e))"

text \<open>
  Rounding to a number of decimals, said without the rounding functions: \<open>k\<close> is the
  integer nearest to \<open>t\<close>, the even one of two that are equally near; and a float is the
  rational \<open>t\<close> up to the relative precision of a double, or the infinity of its sign
  where \<open>t\<close> is beyond the largest binade.
\<close>

definition nearest_even :: "rat \<Rightarrow> int \<Rightarrow> bool" where
  "nearest_even t k \<longleftrightarrow> \<bar>t - of_int k\<bar> < 1 / 2 \<or> (\<bar>t - of_int k\<bar> = 1 / 2 \<and> even k)"

definition within_double :: "rat \<Rightarrow> fl \<Rightarrow> bool" where
  "within_double t field =
     (case field of
        Fin v \<Rightarrow> \<bar>v - t\<bar> * 2 ^ 53 \<le> \<bar>t\<bar>
      | PInf \<Rightarrow> 2 ^ 1023 \<le> t
      | NInf \<Rightarrow> t \<le> - (2 ^ 1023)
      | NaN \<Rightarrow> False)"

section \<open>More concrete inputs\<close>

text \<open>The two results of a search in \<open>demo_store\<close> with \<open>demo_env\<close>.\<close>

definition sky_hit :: search_result where
  "sky_hit = \<lparr>sr_id = 1, sr_content = ''The sky is blue'', sr_category = ''general'',
     sr_similarity = Fin 1\<rparr>"

definition ocean_hit :: search_result where
  "ocean_hit = \<lparr>sr_id = 2, sr_content = ''The ocean is deep'', sr_category = ''nature'',
     sr_similarity = Fin 1\<rparr>"

text \<open>An environment whose model fails to embed: the query vector and its norm are NaN.\<close>

definition failing_env :: env where
  "failing_env = demo_env\<lparr>encode := (\<lambda>t. Inr [NaN]), np_dot := (\<lambda>a b. NaN),
     np_norm := (\<lambda>v. if NaN \<in> set v then NaN else demo_norm v)\<rparr>"

text \<open>
  An environment and a store chosen so that the raw similarities of the two notes are the
  float32 values next to 0.50001 and 0.50004.
\<close>

definition tie_env :: env where
  "tie_env = demo_env\<lparr>encode := (\<lambda>t. Inr [Fin 1]), np_dot := (\<lambda>a b. hd b),
     np_norm := (\<lambda>v. Fin 1)\<rparr>"

definition tie_store :: store where
  "tie_store = \<lparr>note_rows =
      [sky_note\<lparr>n_embedding := Some [Fin (1048597 / 2097152)]\<rparr>,
       ocean_note\<lparr>n_embedding := Some [Fin (8389279 / 16777216)]\<rparr>],
     last_id = 2\<rparr>"

text \<open>Requests: one with a wrong key in the URL and the right key in the header, and a GET.\<close>

definition both_credentials :: http_request where
  "both_credentials =
     \<lparr>h_method = ''POST'', h_api_key = Some ''wrong'', h_authorization = Some ''Bearer s3cret'',
      h_json = Inr no_data\<rparr>"

definition ping :: "string option \<Rightarrow> string option \<Rightarrow> http_request" where
  "ping url_key auth_header =
     \<lparr>h_method = ''GET'', h_api_key = url_key, h_authorization = auth_header, h_json = Inr no_data\<rparr>"

text \<open>
  A calibration environment on the one-component embeddings, with \<^verbatim>\<open>:.4f\<close> on integral
  values and on NaN, and two baselines that hold a zero vector, in the last place and in
  the first.
\<close>

fun demo_fmt_4f :: "fl \<Rightarrow> string" where
  "demo_fmt_4f (Fin q) = show_int \<lfloor>q\<rfloor> @ ''.0000''"
| "demo_fmt_4f PInf = ''inf''"
| "demo_fmt_4f NInf = ''-inf''"
| "demo_fmt_4f NaN = ''nan''"

definition demo_cal_env :: cal_env where
  "demo_cal_env =
     \<lparr>encode_all = (\<lambda>ps. Inr (map (\<lambda>p. [Fin (of_nat (length p))]) ps)),
      dot64 = demo_dot, norm_current = demo_norm, norm_saved = demo_norm,
      fmt_4f = demo_fmt_4f\<rparr>"

definition zero_last_baseline :: calibration where
  "zero_last_baseline =
     \<lparr>c_phrases = CALIBRATION_PHRASES, c_embeddings = [[Fin 44], [Fin 39], [Fin 0]]\<rparr>"

definition zero_first_baseline :: calibration where
  "zero_first_baseline =
     \<lparr>c_phrases = CALIBRATION_PHRASES, c_embeddings = [[Fin 0], [Fin 39], [Fin 40]]\<rparr>"

section \<open>Rounding\<close>

lemma rne_of_int: "rne (of_int k) = k"
  by (simp add: rne_def)

lemma rne_floor_le: "\<lfloor>x\<rfloor> \<le> rne x" and rne_le_floor1: "rne x \<le> \<lfloor>x\<rfloor> + 1"
  unfolding rne_def Let_def by auto

lemma rne_mono: assumes "x \<le> y" shows "rne x \<le> rne y"
proof (cases "\<lfloor>x\<rfloor> = \<lfloor>y\<rfloor>")
  case True
  with assms show ?thesis unfolding rne_def Let_def by auto
next
  case False
  with assms have "\<lfloor>x\<rfloor> < \<lfloor>y\<rfloor>" using floor_mono[of x y] by linarith
  with rne_le_floor1[of x] rne_floor_le[of y] show ?thesis by linarith
qed

text \<open>\<open>ilog2\<close> is the binary exponent.\<close>

lemma ilog2_bounds:
  assumes "0 < x"
  shows "2 powi (ilog2 x) \<le> x" and "x < 2 powi (ilog2 x + 1)"
proof -
  obtain n d where q: "quotient_of x = (n, d)" by (cases "quotient_of x")
  then have d: "0 < d" and x: "x = of_int n / of_int d"
    using quotient_of_denom_pos quotient_of_div by blast+
  with assms have n: "0 < n" by (simp add: zero_less_divide_iff)
  define a where "a = bitlen n"
  define b where "b = bitlen d"
  have a: "2 ^ nat (a - 1) \<le> n" "n < 2 ^ nat a" and b: "2 ^ nat (b - 1) \<le> d" "d < 2 ^ nat b"
    using bitlen_bounds[OF n] bitlen_bounds[OF d] by (auto simp: a_def b_def)
  have apos: "0 < a" and bpos: "0 < b" using n d bitlen_nonneg[of n] bitlen_eq_zero_iff[of n] bitlen_nonneg[of d]
      bitlen_eq_zero_iff[of d] unfolding a_def b_def by linarith+
  have ra: "(2::rat) powi (a - 1) \<le> of_int n" "of_int n < (2::rat) powi a"
  proof -
    have "(2::rat) powi (a - 1) = of_int (2 ^ nat (a - 1))" using apos by (simp add: power_int_def)
    also have "\<dots> \<le> of_int n" using a(1) by (simp only: of_int_le_iff)
    finally show "(2::rat) powi (a - 1) \<le> of_int n" .
    have "of_int n < (of_int (2 ^ nat a)::rat)" using a(2) by (simp only: of_int_less_iff)
    also have "\<dots> = 2 powi a" using apos by (simp add: power_int_def)
    finally show "of_int n < (2::rat) powi a" .
  qed
  have rb: "(2::rat) powi (b - 1) \<le> of_int d" "of_int d < (2::rat) powi b"
  proof -
    have "(2::rat) powi (b - 1) = of_int (2 ^ nat (b - 1))" using bpos by (simp add: power_int_def)
    also have "\<dots> \<le> of_int d" using b(1) by (simp only: of_int_le_iff)
    finally show "(2::rat) powi (b - 1) \<le> of_int d" .
    have "of_int d < (of_int (2 ^ nat b)::rat)" using b(2) by (simp only: of_int_less_iff)
    also have "\<dots> = 2 powi b" using bpos by (simp add: power_int_def)
    finally show "of_int d < (2::rat) powi b" .
  qed
  have dpos: "(0::rat) < of_int d" using d by simp
  have lo: "(2::rat) powi (a - b - 1) < x"
  proof -
    have "(2::rat) powi (a - b - 1) * of_int d < 2 powi (a - b - 1) * 2 powi b"
      using rb(2) by (simp add: zero_less_power_int)
    also have "\<dots> = 2 powi (a - 1)" by (simp flip: power_int_add)
    also have "\<dots> \<le> of_int n" by (rule ra(1))
    finally show ?thesis using dpos by (simp add: x pos_less_divide_eq)
  qed
  have hi: "x < (2::rat) powi (a - b + 1)"
  proof -
    have "of_int n < (2::rat) powi a" by (rule ra(2))
    also have "\<dots> = 2 powi (a - b + 1) * 2 powi (b - 1)" by (simp flip: power_int_add)
    also have "\<dots> \<le> 2 powi (a - b + 1) * of_int d"
      using rb(1) by (simp add: zero_less_power_int)
    finally show ?thesis using dpos by (simp add: x pos_divide_less_eq)
  qed
  have k: "ilog2 x = (if 2 powi (a - b) \<le> x then a - b else a - b - 1)"
    by (simp add: ilog2_def q a_def b_def Let_def)
  show "2 powi (ilog2 x) \<le> x" using lo by (auto simp: k)
  show "x < 2 powi (ilog2 x + 1)" using hi by (auto simp: k)
qed

lemma ilog2_mono: assumes "0 < x" "x \<le> y" shows "ilog2 x \<le> ilog2 y"
proof (rule ccontr)
  assume "\<not> ilog2 x \<le> ilog2 y"
  then have "ilog2 y + 1 \<le> ilog2 x" by simp
  then have "(2::rat) powi (ilog2 y + 1) \<le> 2 powi (ilog2 x)"
    by (intro power_int_increasing) auto
  also have "\<dots> \<le> x" using ilog2_bounds(1)[OF assms(1)] .
  also have "\<dots> \<le> y" by fact
  finally show False using ilog2_bounds(2)[of y] assms by simp
qed

lemma pow2_split: "(2::rat) powi m * 2 powi n = 2 powi (m + n)"
  by (simp add: power_int_add)

text \<open>For a positive argument, the rounded value before the overflow test.\<close>

lemma round_nearest_pos:
  assumes "0 < x"
  shows "round_nearest p emin emax x =
    (let u = 2 powi (max (ilog2 x) emin - int p + 1); y = of_int (rne (x / u)) * u
     in if 2 powi (emax + 1) \<le> y then PInf else Fin y)"
proof -
  define u :: rat where "u = 2 powi (max (ilog2 x) emin - int p + 1)"
  have u: "0 < u" by (simp add: u_def zero_less_power_int)
  then have "0 \<le> x / u" using assms by simp
  then have "rne 0 \<le> rne (x / u)" by (rule rne_mono)
  then have "0 \<le> rne (x / u)" using rne_of_int[of 0] by simp
  then have "0 \<le> of_int (rne (x / u)) * u" using u by simp
  then show ?thesis using assms
    by (simp add: round_nearest_def Let_def signed_inf_def flip: u_def)
qed

lemma scaled_upper:
  assumes "0 < x" "0 < p"
  shows "of_int (rne (x / 2 powi (max (ilog2 x) emin - int p + 1)))
           * 2 powi (max (ilog2 x) emin - int p + 1) \<le> (2::rat) powi (max (ilog2 x) emin + 1)"
proof -
  define e where "e = max (ilog2 x) emin"
  define u :: rat where "u = 2 powi (e - int p + 1)"
  have u: "0 < u" by (simp add: u_def zero_less_power_int)
  have "x < 2 powi (ilog2 x + 1)" using ilog2_bounds(2)[OF assms(1)] .
  also have "\<dots> \<le> 2 powi (e + 1)" by (intro power_int_increasing) (auto simp: e_def)
  also have "\<dots> = 2 powi (int p + (e - int p + 1))" by simp
  also have "\<dots> = 2 powi (int p) * u" unfolding u_def by (rule pow2_split[symmetric])
  finally have "x < 2 powi (int p) * u" .
  then have "x / u \<le> 2 powi (int p)" using u by (simp add: pos_divide_le_eq)
  also have "\<dots> = of_int (2 ^ p)" by (simp add: power_int_of_nat)
  finally have "rne (x / u) \<le> rne (of_int (2 ^ p))" by (rule rne_mono)
  then have "rne (x / u) \<le> 2 ^ p" by (simp only: rne_of_int)
  then have "(of_int (rne (x / u))::rat) \<le> of_int (2 ^ p)" by (simp only: of_int_le_iff)
  then have "of_int (rne (x / u)) * u \<le> of_int (2 ^ p) * u"
    using u by (simp only: mult_le_cancel_right_pos)
  also have "of_int (2 ^ p) * u = 2 powi (int p) * 2 powi (e - int p + 1)"
    by (simp add: u_def power_int_of_nat)
  also have "\<dots> = 2 powi (e + 1)" unfolding pow2_split by simp
  finally show ?thesis by (simp add: u_def e_def)
qed

lemma scaled_lower:
  assumes "0 < x" "0 < p" "emin \<le> ilog2 x"
  shows "(2::rat) powi (ilog2 x) \<le> of_int (rne (x / 2 powi (ilog2 x - int p + 1)))
           * 2 powi (ilog2 x - int p + 1)"
proof -
  define e where "e = ilog2 x"
  define u :: rat where "u = 2 powi (e - int p + 1)"
  have u: "0 < u" by (simp add: u_def zero_less_power_int)
  obtain k where k: "p = Suc k" using assms(2) by (cases p) auto
  have eq: "(2::rat) powi (int k) * u = 2 powi e" unfolding u_def pow2_split by (simp add: k)
  note eq
  also have "2 powi e \<le> x" using ilog2_bounds(1)[OF assms(1)] by (simp add: e_def)
  finally have "2 powi (int k) \<le> x / u" using u by (simp add: pos_le_divide_eq)
  then have "of_int (2 ^ k) \<le> x / u" by (simp add: power_int_of_nat)
  then have "rne (of_int (2 ^ k)) \<le> rne (x / u)" by (rule rne_mono)
  then have "2 ^ k \<le> rne (x / u)" by (simp only: rne_of_int)
  then have "(of_int (2 ^ k)::rat) \<le> of_int (rne (x / u))" by (simp only: of_int_le_iff)
  then have "of_int (2 ^ k) * u \<le> of_int (rne (x / u)) * u"
    using u by (simp only: mult_le_cancel_right_pos)
  moreover have "of_int (2 ^ k) * u = 2 powi e"
    using eq by (simp add: power_int_of_nat)
  ultimately have "2 powi e \<le> of_int (rne (x / u)) * u" by (simp only:)
  then show ?thesis unfolding u_def e_def .
qed

text \<open>Rounding to nearest is monotone on the positive rationals.\<close>

lemma round_nearest_mono_pos:
  assumes "0 < a" "a \<le> b" "0 < p"
  shows "fl_ge (round_nearest p emin emax b) (round_nearest p emin emax a)"
proof -
  define ea where "ea = max (ilog2 a) emin"
  define eb where "eb = max (ilog2 b) emin"
  define ya :: rat where "ya = of_int (rne (a / 2 powi (ea - int p + 1))) * 2 powi (ea - int p + 1)"
  define yb :: rat where "yb = of_int (rne (b / 2 powi (eb - int p + 1))) * 2 powi (eb - int p + 1)"
  have b: "0 < b" using assms by simp
  have ra: "round_nearest p emin emax a = (if 2 powi (emax + 1) \<le> ya then PInf else Fin ya)"
    by (simp add: round_nearest_pos[OF assms(1)] Let_def ya_def ea_def)
  have rb: "round_nearest p emin emax b = (if 2 powi (emax + 1) \<le> yb then PInf else Fin yb)"
    by (simp add: round_nearest_pos[OF b] Let_def yb_def eb_def)
  have le: "ea \<le> eb" using ilog2_mono[OF assms(1,2)] by (auto simp: ea_def eb_def)
  have "ya \<le> yb"
  proof (cases "ea = eb")
    case True
    have u: "(0::rat) < 2 powi (eb - int p + 1)" by (simp add: zero_less_power_int)
    have "a / 2 powi (eb - int p + 1) \<le> b / 2 powi (eb - int p + 1)"
      using assms(2) u by (simp add: divide_right_mono)
    then have "rne (a / 2 powi (eb - int p + 1)) \<le> rne (b / 2 powi (eb - int p + 1))"
      by (rule rne_mono)
    then have "(of_int (rne (a / 2 powi (eb - int p + 1)))::rat)
        \<le> of_int (rne (b / 2 powi (eb - int p + 1)))" by (simp only: of_int_le_iff)
    then show ?thesis unfolding ya_def yb_def True using u
      by (simp only: mult_le_cancel_right_pos)
  next
    case False
    with le have lt: "ea < eb" by simp
    then have eb: "eb = ilog2 b" "emin \<le> ilog2 b" by (auto simp: ea_def eb_def)
    have "ya \<le> 2 powi (ea + 1)"
      using scaled_upper[OF assms(1,3), of emin] by (simp add: ya_def ea_def)
    also have "\<dots> \<le> 2 powi eb" using lt by (intro power_int_increasing) auto
    also have "\<dots> \<le> yb" using scaled_lower[OF b assms(3) eb(2)] by (simp add: yb_def eb(1))
    finally show ?thesis .
  qed
  then show ?thesis by (auto simp: ra rb)
qed

text \<open>The literals \<^verbatim>\<open>0.4\<close> and \<^verbatim>\<open>0.99\<close> as floats.\<close>

lemma floor_literal: "RELEVANCE_FLOOR = Fin (3602879701896397 / 9007199254740992)"
  unfolding RELEVANCE_FLOOR_def by code_simp

lemma threshold_literal: "round64 (99 / 100) = Fin (4458563631096791 / 4503599627370496)"
  by code_simp

text \<open>\<^verbatim>\<open>round(sim, 4)\<close> does not take a similarity below the floor.\<close>

lemma py_round4_ge_floor:
  assumes "fl_ge sim RELEVANCE_FLOOR"
  shows "fl_ge (py_round4 sim) RELEVANCE_FLOOR"
proof (cases sim)
  case (Fin x)
  from assms have "fl_ge sim (Fin (3602879701896397 / 9007199254740992))"
    unfolding floor_literal .
  with Fin have "3602879701896397 / 9007199254740992 \<le> x" by simp
  then have "4 / 10 \<le> x" by simp
  then have "of_int 4000 \<le> x * 10000" by simp
  then have "rne (of_int 4000) \<le> rne (x * 10000)" by (rule rne_mono)
  then have "4000 \<le> rne (x * 10000)" by (simp only: rne_of_int)
  then have "(of_int 4000 :: rat) \<le> of_int (rne (x * 10000))" by (simp only: of_int_le_iff)
  then have "(4 / 10 :: rat) \<le> of_int (rne (x * 10000)) / 10000" by simp
  then have "fl_ge (round64 (of_int (rne (x * 10000)) / 10000)) (round64 (4 / 10))"
    unfolding round64_def by (intro round_nearest_mono_pos) auto
  then have "fl_ge (round64 (of_int (rne (x * 10000)) / 10000)) RELEVANCE_FLOOR"
    by (simp only: RELEVANCE_FLOOR_def)
  then show ?thesis by (simp add: Fin)
next
  case PInf
  have "fl_ge PInf (Fin (3602879701896397 / 9007199254740992))" by simp
  then show ?thesis unfolding PInf floor_literal by simp
qed (use assms[unfolded floor_literal] in auto)

text \<open>The integer that \<open>rne\<close> gives is the nearest, and the even one at a tie.\<close>

lemma rne_nearest_even: "nearest_even t (rne t)"
proof -
  have f: "of_int \<lfloor>t\<rfloor> \<le> t" "t < of_int \<lfloor>t\<rfloor> + 1" by linarith+
  show ?thesis
    unfolding nearest_even_def rne_def Let_def using f by (auto simp: abs_if; linarith)
qed

lemma rne_half: "\<bar>of_int (rne t) - t\<bar> \<le> 1 / 2"
  using rne_nearest_even[of t] unfolding nearest_even_def by (auto simp: abs_minus_commute)

lemma pow2_le_imp_le:
  assumes "(2::rat) powi a \<le> x" "x < 2 powi b"
  shows "a < b"
proof (rule ccontr)
  assume "\<not> a < b"
  then have "b \<le> a" by simp
  then have "(2::rat) powi b \<le> 2 powi a" by (intro power_int_increasing) auto
  with assms show False by simp
qed

text \<open>
  A rounded value is within half a unit in the last place of its argument, which is a
  relative error of \<open>1 / 2 ^ p\<close>; an overflow needs an argument in the top binade or beyond.
\<close>

lemma round_nearest_close:
  assumes "0 < t" "2 powi emin \<le> t" "0 < p"
  shows "(round_nearest p emin emax t = PInf \<and> 2 powi emax \<le> t)
    \<or> (\<exists>v. round_nearest p emin emax t = Fin v \<and> \<bar>v - t\<bar> * 2 ^ p \<le> t)"
proof -
  define e where "e = ilog2 t"
  define u :: rat where "u = 2 powi (e - int p + 1)"
  define y :: rat where "y = of_int (rne (t / u)) * u"
  have u: "0 < u" by (simp add: u_def zero_less_power_int)
  have lo: "2 powi e \<le> t" and hi: "t < 2 powi (e + 1)"
    using ilog2_bounds[OF assms(1)] by (simp_all add: e_def)
  have "emin < e + 1" using assms(2) hi by (rule pow2_le_imp_le)
  then have emin: "max (ilog2 t) emin = e" by (simp add: e_def)
  have r: "round_nearest p emin emax t = (if 2 powi (emax + 1) \<le> y then PInf else Fin y)"
    by (simp add: round_nearest_pos[OF assms(1)] Let_def emin y_def u_def)
  have "y - t = (of_int (rne (t / u)) - t / u) * u"
    using u by (simp add: y_def left_diff_distrib)
  then have "\<bar>y - t\<bar> = \<bar>of_int (rne (t / u)) - t / u\<bar> * \<bar>u\<bar>"
    by (simp only: abs_mult)
  also have "\<dots> = \<bar>of_int (rne (t / u)) - t / u\<bar> * u" using u by simp
  also have "\<dots> \<le> 1 / 2 * u" using rne_half[of "t / u"] u by (intro mult_right_mono) auto
  finally have d: "\<bar>y - t\<bar> \<le> u / 2" by simp
  obtain k where k: "p = Suc k" using assms(3) by (cases p) auto
  have "u * 2 powi (int k) = 2 powi e" unfolding u_def pow2_split by (simp add: k)
  then have uk: "u * 2 ^ k = 2 powi e" by (simp add: power_int_of_nat)
  have "\<bar>y - t\<bar> * 2 ^ p \<le> u / 2 * 2 ^ p" using d by (intro mult_right_mono) auto
  also have "\<dots> = u * 2 ^ k" by (simp add: k)
  also have "\<dots> \<le> t" using uk lo by simp
  finally have close: "\<bar>y - t\<bar> * 2 ^ p \<le> t" .
  show ?thesis
  proof (cases "2 powi (emax + 1) \<le> y")
    case True
    have "y \<le> 2 powi (e + 1)"
      using scaled_upper[OF assms(1,3), of emin] by (simp add: emin y_def u_def)
    with True have "(2::rat) powi (emax + 1) \<le> 2 powi (e + 1)" by simp
    then have "emax \<le> e"
    proof -
      have "\<not> e + 1 < emax + 1"
      proof
        assume "e + 1 < emax + 1"
        then have "(2::rat) powi (e + 1) < 2 powi (emax + 1)"
          by (intro power_int_strict_increasing) auto
        with \<open>(2::rat) powi (emax + 1) \<le> 2 powi (e + 1)\<close> show False by simp
      qed
      then show ?thesis by simp
    qed
    then have "(2::rat) powi emax \<le> 2 powi e" by (intro power_int_increasing) auto
    with lo True show ?thesis by (simp add: r)
  next
    case False
    with close show ?thesis by (simp add: r)
  qed
qed

lemma round64_within:
  assumes "4 / 10 \<le> t"
  shows "within_double t (round64 t)"
proof -
  have pos: "0 < t" using assms by simp
  have "(2::rat) powi (- 1022) \<le> 2 powi (- 2)" by (intro power_int_increasing) auto
  also have "\<dots> = 1 / 4" by (simp add: power_int_minus)
  finally have emin: "(2::rat) powi (- 1022) \<le> t" using assms by simp
  have pw: "(2::rat) powi 1023 = 2 ^ 1023"
    using power_int_of_nat[of "2::rat" 1023] by simp
  from round_nearest_close[OF pos emin, of 53 1023]
  show ?thesis
    unfolding round64_def within_double_def pw using pos by (auto simp: abs_if)
qed

text \<open>What \<^verbatim>\<open>round(sim, 4)\<close> gives for a similarity that passed the floor.\<close>

lemma py_round4_spec:
  assumes "fl_ge sim RELEVANCE_FLOOR"
  shows "(\<exists>y k. sim = Fin y \<and> nearest_even (y * 10000) k
            \<and> within_double (of_int k / 10000) (py_round4 sim))
    \<or> (sim = PInf \<and> py_round4 sim = PInf)"
proof (cases sim)
  case (Fin x)
  from assms have "fl_ge sim (Fin (3602879701896397 / 9007199254740992))"
    unfolding floor_literal .
  with Fin have "3602879701896397 / 9007199254740992 \<le> x" by simp
  then have "of_int 4000 \<le> x * 10000" by simp
  then have "rne (of_int 4000) \<le> rne (x * 10000)" by (rule rne_mono)
  then have "4000 \<le> rne (x * 10000)" by (simp only: rne_of_int)
  then have "(of_int 4000 :: rat) \<le> of_int (rne (x * 10000))" by (simp only: of_int_le_iff)
  then have "(4 / 10 :: rat) \<le> of_int (rne (x * 10000)) / 10000" by simp
  then have "within_double (of_int (rne (x * 10000)) / 10000)
      (round64 (of_int (rne (x * 10000)) / 10000))"
    by (rule round64_within)
  with rne_nearest_even[of "x * 10000"] Fin show ?thesis by auto
qed (use assms[unfolded floor_literal] in auto)

section \<open>Comparisons and the stable sort\<close>

lemma fl_lt_trans: "fl_lt a b \<Longrightarrow> fl_lt b c \<Longrightarrow> fl_lt a c"
  by (cases a; cases b; cases c) auto

lemma fl_lt_irrefl: "\<not> fl_lt a a"
  by (cases a) auto

lemma not_fl_lt_iff_ge: "a \<noteq> NaN \<Longrightarrow> b \<noteq> NaN \<Longrightarrow> \<not> fl_lt a b \<longleftrightarrow> fl_ge a b"
  by (cases a; cases b) auto

lemma fl_ge_not_NaN: "fl_ge a b \<Longrightarrow> a \<noteq> NaN \<and> b \<noteq> NaN"
  by (cases a; cases b) auto

lemma fl_ge_refl: "a \<noteq> NaN \<Longrightarrow> fl_ge a a"
  by (cases a) auto

lemma fl_ge_trans: "fl_ge a b \<Longrightarrow> fl_ge b c \<Longrightarrow> fl_ge a c"
  by (cases a; cases b; cases c) auto

lemma fl_lt_imp_ge: "fl_lt a b \<Longrightarrow> fl_ge b a"
  by (cases a; cases b) auto

lemma set_insort_lt: "set (insort_lt key x ys) = insert x (set ys)"
  by (induction ys) auto

lemma length_insort_lt: "length (insort_lt key x ys) = Suc (length ys)"
  by (induction ys) auto

lemma sorted_insort_lt:
  assumes "sorted_wrt (\<lambda>a b. \<not> fl_lt (key b) (key a)) ys"
  shows "sorted_wrt (\<lambda>a b. \<not> fl_lt (key b) (key a)) (insort_lt key x ys)"
  using assms
proof (induction ys)
  case Nil
  then show ?case by simp
next
  case (Cons y ys)
  show ?case
  proof (cases "fl_lt (key x) (key y)")
    case True
    have "\<not> fl_lt (key z) (key x)" if "z \<in> set (y # ys)" for z
    proof
      assume "fl_lt (key z) (key x)"
      then have "fl_lt (key z) (key y)" using True by (rule fl_lt_trans)
      moreover have "\<not> fl_lt (key z) (key y)" if "z \<in> set ys" using Cons.prems that by simp
      ultimately show False using that by (auto simp: fl_lt_irrefl)
    qed
    with Cons.prems True show ?thesis by simp
  next
    case False
    with Cons show ?thesis by (auto simp: set_insort_lt)
  qed
qed

text \<open>Inserting into a sorted list puts the new item after the items with its key.\<close>

lemma filter_insort_lt:
  assumes "sorted_wrt (\<lambda>a b. \<not> fl_lt (key b) (key a)) ys"
  shows "filter (\<lambda>z. key z = v) (insort_lt key x ys)
    = filter (\<lambda>z. key z = v) ys @ (if key x = v then [x] else [])"
  using assms
proof (induction ys)
  case Nil
  then show ?case by simp
next
  case (Cons y ys)
  show ?case
  proof (cases "fl_lt (key x) (key y)")
    case True
    have "key z \<noteq> key x" if "z \<in> set (y # ys)" for z
    proof
      assume eq: "key z = key x"
      then have "fl_lt (key z) (key y)" using True by simp
      moreover have "\<not> fl_lt (key z) (key y)" if "z \<in> set ys" using Cons.prems that by simp
      ultimately show False using that by (auto simp: fl_lt_irrefl)
    qed
    then have "key x = v \<Longrightarrow> filter (\<lambda>z. key z = v) (y # ys) = []"
      by (auto simp: filter_empty_conv)
    with True show ?thesis by auto
  next
    case False
    with Cons show ?thesis by auto
  qed
qed

lemma py_sort_snoc: "py_sort key (xs @ [x]) = insort_lt key x (py_sort key xs)"
  by (simp add: py_sort_def)

lemma set_py_sort: "set (py_sort key xs) = set xs"
  by (induction xs rule: rev_induct) (auto simp: py_sort_snoc set_insort_lt, simp add: py_sort_def)

lemma length_py_sort: "length (py_sort key xs) = length xs"
  by (induction xs rule: rev_induct) (auto simp: py_sort_snoc length_insort_lt, simp add: py_sort_def)

lemma sorted_py_sort: "sorted_wrt (\<lambda>a b. \<not> fl_lt (key b) (key a)) (py_sort key xs)"
proof (induction xs rule: rev_induct)
  case Nil
  show ?case by (simp add: py_sort_def)
next
  case (snoc x xs)
  then show ?case by (simp add: py_sort_snoc sorted_insort_lt)
qed

text \<open>The sort is stable: the items of one key keep their order.\<close>

lemma filter_py_sort: "filter (\<lambda>z. key z = v) (py_sort key xs) = filter (\<lambda>z. key z = v) xs"
proof (induction xs rule: rev_induct)
  case Nil
  show ?case by (simp add: py_sort_def)
next
  case (snoc x xs)
  then show ?case by (simp add: py_sort_snoc filter_insort_lt[OF sorted_py_sort])
qed

lemma set_py_sort_reverse: "set (py_sort_reverse key xs) = set xs"
  by (simp add: py_sort_reverse_def set_py_sort)

lemma length_py_sort_reverse: "length (py_sort_reverse key xs) = length xs"
  by (simp add: py_sort_reverse_def length_py_sort)

lemma sorted_py_sort_reverse:
  "sorted_wrt (\<lambda>a b. \<not> fl_lt (key a) (key b)) (py_sort_reverse key xs)"
  by (simp add: py_sort_reverse_def sorted_wrt_rev sorted_py_sort)

lemma filter_py_sort_reverse:
  "filter (\<lambda>z. key z = v) (py_sort_reverse key xs) = filter (\<lambda>z. key z = v) xs"
  by (simp add: py_sort_reverse_def filter_py_sort flip: rev_filter)


lemma length_py_slice_to: "0 \<le> limit \<Longrightarrow> int (length (py_slice_to limit xs)) \<le> limit"
  by (simp add: py_slice_to_def)

lemma set_py_slice_to: "set (py_slice_to limit xs) \<subseteq> set xs"
  by (auto simp: py_slice_to_def dest: in_set_takeD)


lemma py_sort_reverse_Nil: "py_sort_reverse key [] = []"
  by (simp add: py_sort_reverse_def py_sort_def)

lemma py_slice_to_Nil: "py_slice_to limit [] = []"
  by (simp add: py_slice_to_def)

section \<open>The search\<close>

text \<open>The loop appends, in the order of the rows, what \<open>scored\<close> gives for each.\<close>

lemma search_loop_scored:
  "search_loop E q rows acc = Inr out \<Longrightarrow> out = acc @ List.map_filter (scored E q) rows"
proof (induction rows arbitrary: acc)
  case Nil
  then show ?case by (simp add: List.map_filter_simps)
next
  case (Cons row rows)
  obtain r e where row: "row = (r, e)" by (cases row)
  from Cons.prems obtain sim where sim: "cosine32 E q e = Inr sim"
    by (auto simp: row split: sum.splits)
  with Cons.prems have "search_loop E q rows
      (if fl_ge sim RELEVANCE_FLOOR
       then acc @ [\<lparr>sr_id = n_id r, sr_content = n_content r, sr_category = n_category r,
              sr_similarity = py_round4 sim\<rparr>]
       else acc) = Inr out"
    by (simp add: row)
  from Cons.IH[OF this] show ?case
    by (simp add: row sim scored_def List.map_filter_simps)
qed

lemma scored_Some:
  "scored E q row = Some x \<longleftrightarrow>
     (\<exists>sim. cosine32 E q (snd row) = Inr sim \<and> fl_ge sim RELEVANCE_FLOOR
        \<and> x = \<lparr>sr_id = n_id (fst row), sr_content = n_content (fst row),
                sr_category = n_category (fst row), sr_similarity = py_round4 sim\<rparr>)"
  by (auto simp: scored_def split: sum.splits)

lemma set_map_filter: "set (List.map_filter f xs) = {y. \<exists>x\<in>set xs. f x = Some y}"
  by (induction xs) (auto simp: List.map_filter_simps split: option.splits)




lemma search_ranked_results:
  assumes "search_ranked E s query limit = Inr (top_results, results)"
  obtains q where "encode E query = Inr q"
    and "results = py_sort_reverse sr_similarity (List.map_filter (scored E q) (select_embedded s))"
    and "top_results = py_slice_to limit results"
proof -
  from assms obtain q where q: "encode E query = Inr q"
    by (auto simp: search_ranked_def split: sum.splits)
  with assms obtain found where f: "search_loop E q (select_embedded s) [] = Inr found"
    by (auto simp: search_ranked_def split: sum.splits)
  from search_loop_scored[OF f] have "found = List.map_filter (scored E q) (select_embedded s)"
    by simp
  with assms q f that show ?thesis by (auto simp: search_ranked_def Let_def)
qed

lemma results_above_floor:
  assumes "search_ranked E s query limit = Inr (top_results, results)" "x \<in> set results"
  shows "fl_ge (sr_similarity x) RELEVANCE_FLOOR"
proof -
  from assms(1) obtain q where
    "results = py_sort_reverse sr_similarity (List.map_filter (scored E q) (select_embedded s))"
    by (rule search_ranked_results)
  with assms(2) obtain row where "scored E q row = Some x"
    by (auto simp: set_py_sort_reverse set_map_filter)
  then show ?thesis by (auto simp: scored_Some intro: py_round4_ge_floor)
qed



lemma demo_search_one:
  "search_ranked demo_env demo_store ''color of the sky'' 1
     = Inr ([sky_hit], [sky_hit, ocean_hit])"
  by code_simp

lemma tie_search:
  "search_ranked tie_env tie_store ''q'' 5
     = Inr ([sky_hit\<lparr>sr_similarity := Fin (1 / 2)\<rparr>, ocean_hit\<lparr>sr_similarity := Fin (1 / 2)\<rparr>],
            [sky_hit\<lparr>sr_similarity := Fin (1 / 2)\<rparr>, ocean_hit\<lparr>sr_similarity := Fin (1 / 2)\<rparr>])"
  by code_simp

subsection \<open>The relevance floor and the limit\<close>

text \<open>
  C4, as stated, fails for a negative limit: \<^verbatim>\<open>results[:-1]\<close> drops the last match, so
  the search in \<open>demo_store\<close> with limit -1 returns one result, which is more than -1.
\<close>

theorem negative_limit_counterexample:
  "search_ranked demo_env demo_store ''color of the sky'' (- 1)
     = Inr ([sky_hit], [sky_hit, ocean_hit])
   \<and> \<not> int (length [sky_hit]) \<le> - 1"
  by code_simp

text \<open>
  C4, amended. Whatever the query, the limit and the store, every result that the search
  returns has a similarity of at least 0.4; and when the limit is not negative, the search
  returns at most \<open>limit\<close> results.
\<close>

theorem search_floor_and_limit:
  assumes "search_ranked E s query limit = Inr (top_results, results)"
  shows "(\<forall>r\<in>set top_results. fl_ge (sr_similarity r) RELEVANCE_FLOOR)
    \<and> (0 \<le> limit \<longrightarrow> int (length top_results) \<le> limit)"
proof -
  from assms obtain q where top_results: "top_results = py_slice_to limit results"
    by (rule search_ranked_results)
  have "fl_ge (sr_similarity r) RELEVANCE_FLOOR" if "r \<in> set top_results" for r
    using that set_py_slice_to[of limit results] results_above_floor[OF assms, of r]
    by (auto simp: top_results)
  moreover have "int (length top_results) \<le> limit" if "0 \<le> limit"
    using that by (simp add: top_results length_py_slice_to)
  ultimately show ?thesis by blast
qed

theorem search_floor_and_limit_witness:
  "search_ranked demo_env demo_store ''color of the sky'' 1 = Inr ([sky_hit], [sky_hit, ocean_hit])
   \<and> fl_ge (sr_similarity sky_hit) RELEVANCE_FLOOR
   \<and> int (length [sky_hit]) \<le> 1"
  using search_floor_and_limit[OF demo_search_one] demo_search_one by simp

subsection \<open>The order of the results\<close>



subsection \<open>Degenerate inputs\<close>

lemma nonfinite_norm_below_floor:
  assumes "\<not> is_finite n"
  shows "\<not> fl_ge (fl_div rnd d (fl_mul rnd n m)) RELEVANCE_FLOOR"
  using assms unfolding floor_literal
  by (cases n; cases m; cases d) (auto simp: fl_div_def fl_mul_def signed_inf_def)

lemma search_loop_nonfinite:
  assumes "\<not> is_finite (np_norm E q)" "list_all (\<lambda>row. length (snd row) = length q) rows"
  shows "search_loop E q rows acc = Inr acc"
  using assms(2)
proof (induction rows)
  case Nil
  show ?case by simp
next
  case (Cons row rows)
  obtain r e where row: "row = (r, e)" by (cases row)
  with Cons.prems have len: "length q = length e" by simp
  have "cosine32 E q e = Inr (fl_div round32 (np_dot E q e) (fl_mul round32 (np_norm E q) (np_norm E e)))"
    by (simp add: cosine32_def len)
  moreover have "\<not> fl_ge (fl_div round32 (np_dot E q e) (fl_mul round32 (np_norm E q) (np_norm E e)))
      RELEVANCE_FLOOR"
    using assms(1) by (rule nonfinite_norm_below_floor)
  ultimately show ?case using Cons by (simp add: row)
qed

lemma map_filter_all_None: "list_all (\<lambda>r. f r = None) xs \<Longrightarrow> List.map_filter f xs = []"
  by (induction xs) (auto simp: List.map_filter_simps)

lemma select_embedded_empty:
  assumes "list_all (\<lambda>r. n_embedding r = None) (note_rows s)"
  shows "select_embedded s = []"
  unfolding select_embedded_def
  by (rule map_filter_all_None) (use assms in \<open>simp add: list_all_iff\<close>)

text \<open>
  C6. When the query is embedded and either no note of the store has an embedding, or the
  norm of the query embedding is not finite (the stored embeddings having the dimension
  of the query's), the search returns no result and reports zero total matches; it raises
  nothing.
\<close>

theorem search_degenerate:
  assumes "encode E query = Inr q"
    and "list_all (\<lambda>r. n_embedding r = None) (note_rows s)
      \<or> (\<not> is_finite (np_norm E q)
          \<and> list_all (\<lambda>row. length (snd row) = length q) (select_embedded s))"
  shows "search_ranked E s query limit = Inr ([], [])
    \<and> search_notes E s query limit
        = Inr (content_result (''Found 0 relevant notes (from 0 total matches):'' @ nl @ nl))"
proof -
  have "search_loop E q (select_embedded s) [] = Inr []"
    using assms(2)
  proof
    assume "list_all (\<lambda>r. n_embedding r = None) (note_rows s)"
    then show ?thesis by (simp add: select_embedded_empty)
  next
    assume "\<not> is_finite (np_norm E q)
      \<and> list_all (\<lambda>row. length (snd row) = length q) (select_embedded s)"
    then show ?thesis by (simp add: search_loop_nonfinite)
  qed
  then have "search_ranked E s query limit = Inr ([], [])"
    by (simp add: search_ranked_def assms(1) py_sort_reverse_Nil py_slice_to_Nil)
  then show ?thesis by (simp add: search_notes_def search_text_def)
qed

theorem search_degenerate_witness:
  "search_ranked demo_env empty_store ''anything'' 5 = Inr ([], [])
   \<and> np_norm failing_env [NaN] = NaN
   \<and> search_ranked failing_env demo_store ''anything'' 5 = Inr ([], [])"
proof -
  have e1: "encode demo_env ''anything'' = Inr [Fin 9]" by (simp add: demo_env_def)
  have e2: "encode failing_env ''anything'' = Inr [NaN]" by (simp add: failing_env_def)
  have n: "np_norm failing_env [NaN] = NaN" by (simp add: failing_env_def)
  have h1: "list_all (\<lambda>r. n_embedding r = None) (note_rows empty_store)"
    by (simp add: empty_store_def)
  have h2: "\<not> is_finite (np_norm failing_env [NaN])
      \<and> list_all (\<lambda>row. length (snd row) = length [NaN]) (select_embedded demo_store)"
    by (simp add: n select_embedded_def demo_store_def sky_note_def ocean_note_def
          List.map_filter_simps)
  show ?thesis
    using search_degenerate[OF e1 disjI1[OF h1], of 5] search_degenerate[OF e2 disjI2[OF h2], of 5] n
    by simp
qed

subsection \<open>Rounded similarities\<close>

lemma cosine32_Inr:
  "cosine32 E q e = Inr sim \<longleftrightarrow> length q = length e \<and> sim = spec_cosine E q e"
  by (auto simp: cosine32_def spec_cosine_def)

text \<open>Evaluations in \<open>tie_env\<close>.\<close>

lemma tie_raw_order:
  "spec_cosine tie_env [Fin 1] [Fin (1048597 / 2097152)] = Fin (1048597 / 2097152)"
  "spec_cosine tie_env [Fin 1] [Fin (8389279 / 16777216)] = Fin (8389279 / 16777216)"
  by code_simp+

text \<open>
  C10. Every result comes from a fetched row whose unrounded similarity
  \<^verbatim>\<open>dot / (norm * norm)\<close> is at least the floor, and its similarity field is that
  similarity rounded to four decimals: the decimal \<open>k / 10000\<close>, for the integer \<open>k\<close>
  nearest to 10000 times the similarity, as a double. Every fetched row whose unrounded
  similarity reaches the floor has such a result. The results are in descending order of
  the rounded field, and the results of one rounded value stand in the order in which the
  loop met them, whatever their unrounded similarities: they are ties. The returned list
  is the slice of the results up to the limit. In \<open>tie_store\<close> the raw similarities are
  0.50001 and 0.50004; both notes get 0.5 and the first stays first.
\<close>

theorem search_similarity_rounding:
  assumes "encode E query = Inr q" "search_ranked E s query limit = Inr (top_results, results)"
  shows "(\<forall>x\<in>set results. \<exists>r e. (r, e) \<in> set (select_embedded s) \<and> length e = length q
            \<and> fl_ge (spec_cosine E q e) RELEVANCE_FLOOR
            \<and> sr_id x = n_id r \<and> sr_content x = n_content r \<and> sr_category x = n_category r
            \<and> ((\<exists>y k. spec_cosine E q e = Fin y \<and> nearest_even (y * 10000) k
                    \<and> within_double (of_int k / 10000) (sr_similarity x))
                 \<or> (spec_cosine E q e = PInf \<and> sr_similarity x = PInf)))
    \<and> (\<forall>(r, e)\<in>set (select_embedded s). length e = length q
            \<longrightarrow> fl_ge (spec_cosine E q e) RELEVANCE_FLOOR
            \<longrightarrow> (\<exists>x\<in>set results. sr_id x = n_id r \<and> sr_content x = n_content r
                   \<and> sr_category x = n_category r
                   \<and> ((\<exists>y k. spec_cosine E q e = Fin y \<and> nearest_even (y * 10000) k
                           \<and> within_double (of_int k / 10000) (sr_similarity x))
                        \<or> (spec_cosine E q e = PInf \<and> sr_similarity x = PInf))))
    \<and> sorted_wrt (\<lambda>a b. fl_ge (sr_similarity a) (sr_similarity b)) results
    \<and> (\<forall>v. filter (\<lambda>z. sr_similarity z = v) results
            = filter (\<lambda>z. sr_similarity z = v) (List.map_filter (scored E q) (select_embedded s)))
    \<and> top_results = py_slice_to limit results"
proof -
  from assms(2) obtain q' where q': "encode E query = Inr q'"
    and res: "results = py_sort_reverse sr_similarity (List.map_filter (scored E q') (select_embedded s))"
    and top: "top_results = py_slice_to limit results"
    by (rule search_ranked_results)
  from q' assms(1) have [simp]: "q' = q" by simp
  have set: "set results = {y. \<exists>row\<in>set (select_embedded s). scored E q row = Some y}"
    by (simp add: res set_py_sort_reverse set_map_filter)
  have a: "\<forall>x\<in>set results. \<exists>r e. (r, e) \<in> set (select_embedded s) \<and> length e = length q
            \<and> fl_ge (spec_cosine E q e) RELEVANCE_FLOOR
            \<and> sr_id x = n_id r \<and> sr_content x = n_content r \<and> sr_category x = n_category r
            \<and> ((\<exists>y k. spec_cosine E q e = Fin y \<and> nearest_even (y * 10000) k
                    \<and> within_double (of_int k / 10000) (sr_similarity x))
                 \<or> (spec_cosine E q e = PInf \<and> sr_similarity x = PInf))"
  proof
    fix x assume "x \<in> set results"
    then obtain r e where row: "(r, e) \<in> set (select_embedded s)"
      and sc: "scored E q (r, e) = Some x"
      unfolding set by auto
    from sc obtain sim where sim: "cosine32 E q e = Inr sim" "fl_ge sim RELEVANCE_FLOOR"
      and x: "x = \<lparr>sr_id = n_id r, sr_content = n_content r, sr_category = n_category r,
                   sr_similarity = py_round4 sim\<rparr>"
      by (auto simp: scored_Some)
    from sim(1) have len: "length e = length q" and eq: "sim = spec_cosine E q e"
      by (simp_all add: cosine32_Inr)
    have ge: "fl_ge (spec_cosine E q e) RELEVANCE_FLOOR" using sim(2) eq by simp
    have x': "x = \<lparr>sr_id = n_id r, sr_content = n_content r, sr_category = n_category r,
                   sr_similarity = py_round4 (spec_cosine E q e)\<rparr>"
      using x eq by simp
    from py_round4_spec[OF ge] row len ge show "\<exists>r e. (r, e) \<in> set (select_embedded s)
            \<and> length e = length q
            \<and> fl_ge (spec_cosine E q e) RELEVANCE_FLOOR
            \<and> sr_id x = n_id r \<and> sr_content x = n_content r \<and> sr_category x = n_category r
            \<and> ((\<exists>y k. spec_cosine E q e = Fin y \<and> nearest_even (y * 10000) k
                    \<and> within_double (of_int k / 10000) (sr_similarity x))
                 \<or> (spec_cosine E q e = PInf \<and> sr_similarity x = PInf))"
      unfolding x' by (intro exI[of _ r] exI[of _ e]) simp
  qed
  have b: "\<forall>(r, e)\<in>set (select_embedded s). length e = length q
            \<longrightarrow> fl_ge (spec_cosine E q e) RELEVANCE_FLOOR
            \<longrightarrow> (\<exists>x\<in>set results. sr_id x = n_id r \<and> sr_content x = n_content r
                   \<and> sr_category x = n_category r
                   \<and> ((\<exists>y k. spec_cosine E q e = Fin y \<and> nearest_even (y * 10000) k
                           \<and> within_double (of_int k / 10000) (sr_similarity x))
                        \<or> (spec_cosine E q e = PInf \<and> sr_similarity x = PInf)))"
  proof (clarify)
    fix r e
    assume row: "(r, e) \<in> set (select_embedded s)" and len: "length e = length q"
      and ge: "fl_ge (spec_cosine E q e) RELEVANCE_FLOOR"
    let ?x = "\<lparr>sr_id = n_id r, sr_content = n_content r, sr_category = n_category r,
        sr_similarity = py_round4 (spec_cosine E q e)\<rparr>"
    have "cosine32 E q e = Inr (spec_cosine E q e)" using len by (simp add: cosine32_Inr)
    with ge have "scored E q (r, e) = Some ?x" by (simp add: scored_Some)
    with row have "?x \<in> set results" unfolding set by blast
    with py_round4_spec[OF ge] show "\<exists>x\<in>set results. sr_id x = n_id r \<and> sr_content x = n_content r
                   \<and> sr_category x = n_category r
                   \<and> ((\<exists>y k. spec_cosine E q e = Fin y \<and> nearest_even (y * 10000) k
                           \<and> within_double (of_int k / 10000) (sr_similarity x))
                        \<or> (spec_cosine E q e = PInf \<and> sr_similarity x = PInf))"
      by (intro bexI[of _ ?x]) simp_all
  qed
  have nan: "sr_similarity x \<noteq> NaN" if "x \<in> set results" for x
    using results_above_floor[OF assms(2) that] fl_ge_not_NaN by blast
  have "sorted_wrt (\<lambda>a b. \<not> fl_lt (sr_similarity a) (sr_similarity b)) results"
    unfolding res by (rule sorted_py_sort_reverse)
  then have c: "sorted_wrt (\<lambda>a b. fl_ge (sr_similarity a) (sr_similarity b)) results"
    by (rule sorted_wrt_mono_rel[rotated]) (use nan in \<open>simp add: not_fl_lt_iff_ge\<close>)
  have d: "\<forall>v. filter (\<lambda>z. sr_similarity z = v) results
            = filter (\<lambda>z. sr_similarity z = v) (List.map_filter (scored E q) (select_embedded s))"
    by (simp add: res filter_py_sort_reverse)
  from a b c d top show ?thesis by (intro conjI)
qed

theorem search_similarity_rounding_witness:
  "encode tie_env ''q'' = Inr [Fin 1]
   \<and> search_ranked tie_env tie_store ''q'' 5
     = Inr ([sky_hit\<lparr>sr_similarity := Fin (1 / 2)\<rparr>, ocean_hit\<lparr>sr_similarity := Fin (1 / 2)\<rparr>],
            [sky_hit\<lparr>sr_similarity := Fin (1 / 2)\<rparr>, ocean_hit\<lparr>sr_similarity := Fin (1 / 2)\<rparr>])
   \<and> spec_cosine tie_env [Fin 1] [Fin (1048597 / 2097152)] = Fin (1048597 / 2097152)
   \<and> spec_cosine tie_env [Fin 1] [Fin (8389279 / 16777216)] = Fin (8389279 / 16777216)
   \<and> (1048597 / 2097152 :: rat) < 8389279 / 16777216
   \<and> filter (\<lambda>z. sr_similarity z = Fin (1 / 2))
        [sky_hit\<lparr>sr_similarity := Fin (1 / 2)\<rparr>, ocean_hit\<lparr>sr_similarity := Fin (1 / 2)\<rparr>]
      = filter (\<lambda>z. sr_similarity z = Fin (1 / 2))
          (List.map_filter (scored tie_env [Fin 1]) (select_embedded tie_store))
   \<and> sorted_wrt (\<lambda>a b. fl_ge (sr_similarity a) (sr_similarity b))
       [sky_hit\<lparr>sr_similarity := Fin (1 / 2)\<rparr>, ocean_hit\<lparr>sr_similarity := Fin (1 / 2)\<rparr>]"
proof -
  have e: "encode tie_env ''q'' = Inr [Fin 1]" by (simp add: tie_env_def)
  have lt: "(1048597 / 2097152 :: rat) < 8389279 / 16777216" by simp
  from search_similarity_rounding[OF e tie_search] e tie_search tie_raw_order lt
  show ?thesis by blast
qed

section \<open>Authorization\<close>

text \<open>
  C2, as stated, fails: a request with a wrong key in the \<open>api_key\<close> parameter is rejected
  although its \<open>Authorization: Bearer\<close> header carries the configured key.
\<close>

theorem header_credential_ignored:
  "sha256_hex demo_env (drop 7 ''Bearer s3cret'') = API_KEY_HASH demo_env
   \<and> mcp_sse demo_env demo_store both_credentials
     = (JsonResponse 401 (JObj [(''error'', JStr ''Unauthorized'')]), demo_store)"
  by (simp add: mcp_sse_def verify_auth_def API_KEY_HASH_def demo_env_def both_credentials_def)

lemma mcp_sse_authorized:
  "verify_auth E req \<Longrightarrow>
     mcp_sse E s req = (EventStream (fst (generate E s req)), snd (generate E s req))"
  by (simp add: mcp_sse_def split: prod.splits)

text \<open>
  C2, amended. A non-empty \<open>api_key\<close> parameter decides: the request is dispatched when it
  hashes to the configured secret and rejected with 401 when it does not, whatever the
  header. When the parameter is absent or empty, a header \<open>Bearer \<close> followed by a token
  that hashes to the secret has the request dispatched. A request with neither parameter
  nor header is rejected with 401.
\<close>

theorem authorized_by_first_credential:
  assumes "sha256_hex E cred = API_KEY_HASH E"
  shows "(h_api_key req = Some cred \<and> cred \<noteq> [] \<longrightarrow>
            mcp_sse E s req = (EventStream (fst (generate E s req)), snd (generate E s req)))
    \<and> ((h_api_key req = None \<or> h_api_key req = Some [])
          \<and> h_authorization req = Some (''Bearer '' @ cred) \<longrightarrow>
            mcp_sse E s req = (EventStream (fst (generate E s req)), snd (generate E s req)))
    \<and> (h_api_key req = Some k \<and> k \<noteq> [] \<and> sha256_hex E k \<noteq> API_KEY_HASH E \<longrightarrow>
            mcp_sse E s req = (JsonResponse 401 (JObj [(''error'', JStr ''Unauthorized'')]), s))
    \<and> (h_api_key req = None \<and> h_authorization req = None \<longrightarrow>
            mcp_sse E s req = (JsonResponse 401 (JObj [(''error'', JStr ''Unauthorized'')]), s))"
proof (intro conjI impI)
  assume "h_api_key req = Some cred \<and> cred \<noteq> []"
  then have "verify_auth E req" using assms by (cases cred) (auto simp: verify_auth_def)
  then show "mcp_sse E s req = (EventStream (fst (generate E s req)), snd (generate E s req))"
    by (rule mcp_sse_authorized)
next
  assume "(h_api_key req = None \<or> h_api_key req = Some [])
    \<and> h_authorization req = Some (''Bearer '' @ cred)"
  then have "verify_auth E req" using assms by (auto simp: verify_auth_def)
  then show "mcp_sse E s req = (EventStream (fst (generate E s req)), snd (generate E s req))"
    by (rule mcp_sse_authorized)
next
  assume "h_api_key req = Some k \<and> k \<noteq> [] \<and> sha256_hex E k \<noteq> API_KEY_HASH E"
  then have "\<not> verify_auth E req" by (cases k) (auto simp: verify_auth_def)
  then show "mcp_sse E s req = (JsonResponse 401 (JObj [(''error'', JStr ''Unauthorized'')]), s)"
    by (simp add: mcp_sse_def)
next
  assume "h_api_key req = None \<and> h_authorization req = None"
  then have "\<not> verify_auth E req" by (auto simp: verify_auth_def)
  then show "mcp_sse E s req = (JsonResponse 401 (JObj [(''error'', JStr ''Unauthorized'')]), s)"
    by (simp add: mcp_sse_def)
qed

theorem authorized_by_first_credential_witness:
  "sha256_hex demo_env ''s3cret'' = API_KEY_HASH demo_env
   \<and> mcp_sse demo_env demo_store (ping (Some ''s3cret'') None)
       = (EventStream (JObj [(''jsonrpc'', JStr ''2.0''), (''id'', JInt 1),
            (''result'', initialize_result)]), demo_store)
   \<and> mcp_sse demo_env demo_store (ping None (Some ''Bearer s3cret''))
       = (EventStream (JObj [(''jsonrpc'', JStr ''2.0''), (''id'', JInt 1),
            (''result'', initialize_result)]), demo_store)
   \<and> mcp_sse demo_env demo_store (ping (Some ''wrong'') (Some ''Bearer s3cret''))
       = (JsonResponse 401 (JObj [(''error'', JStr ''Unauthorized'')]), demo_store)
   \<and> mcp_sse demo_env demo_store (ping None None)
       = (JsonResponse 401 (JObj [(''error'', JStr ''Unauthorized'')]), demo_store)"
proof -
  have h: "sha256_hex demo_env ''s3cret'' = API_KEY_HASH demo_env"
    by (simp add: API_KEY_HASH_def demo_env_def)
  have g: "generate demo_env demo_store
        \<lparr>h_method = ''GET'', h_api_key = u, h_authorization = a, h_json = Inr no_data\<rparr>
      = (JObj [(''jsonrpc'', JStr ''2.0''), (''id'', JInt 1), (''result'', initialize_result)],
         demo_store)" for u a
    by (simp add: generate_def no_data_def handle_mcp_request_def)
  have w: "sha256_hex demo_env ''wrong'' \<noteq> API_KEY_HASH demo_env"
    by (simp add: API_KEY_HASH_def demo_env_def)
  show ?thesis
    using authorized_by_first_credential[OF h, where req = "ping (Some ''s3cret'') None"
        and s = demo_store]
      authorized_by_first_credential[OF h, where req = "ping None (Some ''Bearer s3cret'')"
        and s = demo_store]
      authorized_by_first_credential[OF h, where req = "ping (Some ''wrong'') (Some ''Bearer s3cret'')"
        and k = "''wrong''" and s = demo_store]
      authorized_by_first_credential[OF h, where req = "ping None None" and s = demo_store] h w
    by (simp add: g ping_def)
qed

section \<open>The response envelope of an unknown method\<close>

text \<open>
  For every method other than the three supported ones, and whatever the request
  identifier, \<open>generate\<close> wraps the error object of \<open>handle_mcp_request\<close> in the
  \<open>result\<close> member: the envelope has no \<open>error\<close> member of its own.
\<close>

lemma generate_unknown_method:
  assumes "method \<noteq> ''initialize''" "method \<noteq> ''tools/list''" "method \<noteq> ''tools/call''"
    and "h_method req = ''POST''" "h_json req = Inr data" "r_method data = Some method"
  shows "generate E s req =
    (JObj [(''jsonrpc'', JStr ''2.0''), (''id'', get_default (r_id data) (JInt 1)),
           (''result'', JObj [(''error'', JObj [(''code'', JInt (- 32601)),
              (''message'', JStr (''Method not found: '' @ method))])])], s)"
  using assms by (simp add: generate_def handle_mcp_request_def error_result_def)

text \<open>
  C1. An authorized POST request with the method \<open>resources/list\<close> and the identifier 7
  is answered by the envelope \<open>{jsonrpc, id: 7, result: {error: {code: -32601, message}}}\<close>:
  the error is a member of \<open>result\<close>, and the envelope has no member \<open>error\<close>.
\<close>

theorem unknown_method_error_inside_result:
  "mcp_sse demo_env demo_store
     \<lparr>h_method = ''POST'', h_api_key = Some ''s3cret'', h_authorization = None,
      h_json = Inr \<lparr>r_method = Some ''resources/list'', r_params = None, r_id = Some (JInt 7)\<rparr>\<rparr>
   = (EventStream (JObj [(''jsonrpc'', JStr ''2.0''), (''id'', JInt 7),
        (''result'', JObj [(''error'', JObj [(''code'', JInt (- 32601)),
           (''message'', JStr ''Method not found: resources/list'')])])]), demo_store)
   \<and> jget (JObj [(''jsonrpc'', JStr ''2.0''), (''id'', JInt 7),
        (''result'', JObj [(''error'', JObj [(''code'', JInt (- 32601)),
           (''message'', JStr ''Method not found: resources/list'')])])]) ''error'' = None"
  by (simp add: mcp_sse_def verify_auth_def API_KEY_HASH_def demo_env_def generate_def
        handle_mcp_request_def error_result_def no_params_def)

section \<open>A search without a query\<close>

lemma search_notes_content:
  "search_notes E s query limit = Inr r \<Longrightarrow> \<exists>t. r = content_result t"
  by (auto simp: search_notes_def split: sum.splits prod.splits)

text \<open>
  C3. A \<open>tools/call\<close> of \<open>search_neural_memory\<close> whose arguments object is empty is not
  rejected with the code -32602: the empty string is searched for and a content result
  is returned.
\<close>

theorem search_without_query_is_answered:
  "handle_mcp_request demo_env empty_store ''tools/call''
     \<lparr>p_name = Some ''search_neural_memory'', p_arguments = Some no_args\<rparr>
   = (content_result (''Found 0 relevant notes (from 0 total matches):'' @ nl @ nl), empty_store)"
  by (simp add: handle_mcp_request_def handle_tool_call_def no_args_def search_notes_def
        search_ranked_def demo_env_def empty_store_def select_embedded_def List.map_filter_simps
        py_sort_reverse_def py_sort_def py_slice_to_def search_text_def)

section \<open>The store stays well-formed\<close>

lemma store_ok_empty: "store_ok empty_store"
  by (simp add: store_ok_def empty_store_def)

lemma fold_max_ge: "(a::int) \<le> fold max xs a" and fold_max_upper: "\<forall>x\<in>set xs. x \<le> fold max xs a"
proof -
  have "a \<le> fold max xs a \<and> (\<forall>x\<in>set xs. x \<le> fold max xs a)"
  proof (induction xs arbitrary: a)
    case Nil
    show ?case by simp
  next
    case (Cons y ys)
    from Cons[of "max y a"] show ?case by auto
  qed
  then show "a \<le> fold max xs a" "\<forall>x\<in>set xs. x \<le> fold max xs a" by auto
qed

lemma add_note_store_ok:
  assumes "store_ok s" "add_note E s content category = Inr (reply, s')"
  shows "store_ok s'"
proof (cases "content = []")
  case True
  with assms show ?thesis by (simp add: add_note_def)
next
  case False
  define k where "k = fold max (map n_id (note_rows s)) (last_id s) + 1"
  from assms(2) False obtain emb where
    s': "s' = \<lparr>note_rows = note_rows s @ [\<lparr>n_id = k, n_content = content, n_category = category,
            n_timestamp = now_iso E, n_embedding = Some emb\<rparr>], last_id = k\<rparr>"
    by (auto simp: add_note_def Let_def k_def split: sum.splits)
  have ids: "\<forall>r\<in>set (note_rows s). 0 < n_id r \<and> n_id r < k"
    using assms(1) fold_max_upper[of "map n_id (note_rows s)" "last_id s"]
    by (fastforce simp: store_ok_def list_all_iff k_def)
  have kpos: "0 < k"
    using assms(1) fold_max_ge[of "last_id s" "map n_id (note_rows s)"]
    by (simp add: k_def store_ok_def)
  show ?thesis
    using assms(1) ids kpos
    by (fastforce simp: store_ok_def s' sorted_wrt_append list_all_iff)
qed

lemma map_id_update:
  "map n_id (map (\<lambda>r. if P r then r\<lparr>n_content := a, n_category := b, n_timestamp := c,
      n_embedding := d\<rparr> else r) xs) = map n_id xs"
  by (induction xs) auto

lemma update_note_ids:
  assumes "update_note E s note_id content category = Inr (reply, s')"
  shows "map n_id (note_rows s') = map n_id (note_rows s) \<and> last_id s' = last_id s"
proof (cases "falsy_int note_id \<or> falsy_str content")
  case True
  with assms show ?thesis by (simp add: update_note_def)
next
  case False
  then obtain nid c where nc: "note_id = Some nid" "content = Some c"
    by (cases note_id; cases content) auto
  show ?thesis
  proof (cases "find (\<lambda>r. n_id r = nid) (note_rows s)")
    case None
    with assms False nc show ?thesis by (simp add: update_note_def)
  next
    case (Some existing)
    with assms False nc obtain emb where "encode E c = Inr emb"
      by (auto simp: update_note_def split: sum.splits)
    with assms False nc Some show ?thesis
      by (auto simp: update_note_def Let_def map_id_update simp del: map_map)
  qed
qed

lemma update_note_store_ok:
  assumes "store_ok s" "update_note E s note_id content category = Inr (reply, s')"
  shows "store_ok s'"
proof -
  from update_note_ids[OF assms(2)]
  have ids: "map n_id (note_rows s') = map n_id (note_rows s)" and l: "last_id s' = last_id s"
    by auto
  have "list_all (\<lambda>i. 0 < i \<and> i \<le> last_id s) (map n_id (note_rows s))"
    using assms(1) by (simp add: store_ok_def list_all_iff)
  then have "list_all (\<lambda>i. 0 < i \<and> i \<le> last_id s) (map n_id (note_rows s'))"
    by (simp only: ids)
  then have "list_all (\<lambda>r. 0 < n_id r \<and> n_id r \<le> last_id s') (note_rows s')"
    by (simp add: list_all_iff l)
  with assms(1) ids l show ?thesis by (simp add: store_ok_def)
qed

lemma delete_note_store_ok:
  assumes "store_ok s" "delete_note s note_id = (reply, s')"
  shows "store_ok s'"
proof -
  have "s' = s \<or> (\<exists>nid. s' = s\<lparr>note_rows := filter (\<lambda>r. n_id r \<noteq> nid) (note_rows s)\<rparr>)"
    using assms(2) by (auto simp: delete_note_def split: option.splits if_splits)
  then show ?thesis
  proof
    assume "s' = s"
    with assms(1) show ?thesis by simp
  next
    assume "\<exists>nid. s' = s\<lparr>note_rows := filter (\<lambda>r. n_id r \<noteq> nid) (note_rows s)\<rparr>"
    then obtain nid where s': "s' = s\<lparr>note_rows := filter (\<lambda>r. n_id r \<noteq> nid) (note_rows s)\<rparr>"
      by blast
    have "sorted_wrt (\<lambda>a b. n_id a < n_id b) (filter (\<lambda>r. n_id r \<noteq> nid) (note_rows s))"
      using assms(1) by (simp add: store_ok_def sorted_wrt_map sorted_wrt_filter)
    with assms(1) show ?thesis by (simp add: store_ok_def s' sorted_wrt_map list_all_iff)
  qed
qed

section \<open>Updating a note\<close>

lemma find_map_same_id:
  assumes "\<And>r. n_id (f r) = n_id r"
  shows "find (\<lambda>r. n_id r = nid) (map f xs) = map_option f (find (\<lambda>r. n_id r = nid) xs)"
  by (induction xs) (auto simp: assms)

text \<open>
  C8. On a well-formed store, \<open>update_note\<close> of an existing note with a non-empty content
  and no category, the model having embedded the content, replaces the content, the
  embedding and the timestamp of that note and leaves its category, its id, the other
  notes and the counter as they were.
\<close>

theorem update_note_keeps_category:
  assumes "store_ok s" "find (\<lambda>r. n_id r = nid) (note_rows s) = Some old"
    and "content \<noteq> []" "encode E content = Inr emb"
  shows "\<exists>reply s' new.
      update_note E s (Some nid) (Some content) None = Inr (reply, s')
    \<and> find (\<lambda>r. n_id r = nid) (note_rows s') = Some new
    \<and> n_category new = n_category old
    \<and> n_content new = content \<and> n_embedding new = Some emb \<and> n_timestamp new = now_iso E
    \<and> n_id new = nid
    \<and> filter (\<lambda>r. n_id r \<noteq> nid) (note_rows s') = filter (\<lambda>r. n_id r \<noteq> nid) (note_rows s)
    \<and> map n_id (note_rows s') = map n_id (note_rows s)
    \<and> last_id s' = last_id s"
proof -
  from assms(2) have old: "old \<in> set (note_rows s)" "n_id old = nid"
    by (auto simp: find_Some_iff in_set_conv_nth)
  with assms(1) have nz: "nid \<noteq> 0" by (auto simp: store_ok_def list_all_iff)
  define f :: "note_row \<Rightarrow> note_row" where "f = (\<lambda>r. if n_id r = nid
     then r\<lparr>n_content := content, n_category := n_category old, n_timestamp := now_iso E,
            n_embedding := Some emb\<rparr> else r)"
  have id: "n_id (f r) = n_id r" for r by (simp add: f_def)
  have upd: "update_note E s (Some nid) (Some content) None
      = Inr (content_result (check_mark @ '' Updated note #'' @ show_int nid @ nl
               @ ''Category: '' @ n_category old @ nl @ ''Content: '' @ content),
             s\<lparr>note_rows := map f (note_rows s)\<rparr>)"
    using nz assms(2-4) by (simp add: update_note_def f_def Let_def)
  have fnd: "find (\<lambda>r. n_id r = nid) (map f (note_rows s)) = Some (f old)"
    by (simp add: find_map_same_id[of f, OF id] assms(2))
  have flt: "filter (\<lambda>r. n_id r \<noteq> nid) (map f (note_rows s)) = filter (\<lambda>r. n_id r \<noteq> nid) (note_rows s)"
    by (induction "note_rows s") (auto simp: f_def filter_map comp_def intro: filter_cong map_idI)
  have ids: "map n_id (map f (note_rows s)) = map n_id (note_rows s)"
    by (simp add: id comp_def)
  show ?thesis
    using upd fnd flt ids old(2) by (auto simp: f_def)
qed

theorem update_note_keeps_category_witness:
  "store_ok demo_store
   \<and> find (\<lambda>r. n_id r = 1) (note_rows demo_store) = Some sky_note
   \<and> encode demo_env ''The ocean is deep'' = Inr [Fin 18]
   \<and> (\<exists>reply s' new.
        update_note demo_env demo_store (Some 1) (Some ''The ocean is deep'') None = Inr (reply, s')
      \<and> find (\<lambda>r. n_id r = 1) (note_rows s') = Some new
      \<and> n_category new = ''general''
      \<and> n_content new = ''The ocean is deep'' \<and> n_embedding new = Some [Fin 18]
      \<and> n_timestamp new = ''2024-01-02T03:04:05'')"
proof -
  have ok: "store_ok demo_store"
    by (simp add: store_ok_def demo_store_def sky_note_def ocean_note_def)
  have f: "find (\<lambda>r. n_id r = 1) (note_rows demo_store) = Some sky_note"
    by (simp add: demo_store_def sky_note_def)
  have e: "encode demo_env ''The ocean is deep'' = Inr [Fin 18]" by (simp add: demo_env_def)
  have c: "n_category sky_note = ''general''" "now_iso demo_env = ''2024-01-02T03:04:05''"
    by (simp_all add: sky_note_def demo_env_def)
  from update_note_keeps_category[OF ok f _ e] c ok f e show ?thesis by fastforce
qed

text \<open>
  C9. \<open>update_note\<close> with the empty string as content returns the error -32602 and the
  store it was given, whatever the note id and the category; so does the dispatcher for
  such a \<open>tools/call\<close>.
\<close>

theorem update_note_empty_content:
  "update_note E s note_id (Some []) category
     = Inr (error_result (- 32602) ''Note ID and content required'', s)
   \<and> handle_mcp_request E s ''tools/call''
       \<lparr>p_name = Some ''update_note'',
        p_arguments = Some \<lparr>a_query = None, a_limit = None, a_content = Some [],
          a_category = category, a_note_id = note_id\<rparr>\<rparr>
     = (error_result (- 32602) ''Note ID and content required'', s)"
  by (simp add: update_note_def handle_mcp_request_def handle_tool_call_def)

theorem update_note_empty_content_witness:
  "find (\<lambda>r. n_id r = 1) (note_rows demo_store) = Some sky_note
   \<and> update_note demo_env demo_store (Some 1) (Some []) None
     = Inr (error_result (- 32602) ''Note ID and content required'', demo_store)"
  using update_note_empty_content [of demo_env demo_store "Some 1" None]
  by (simp add: demo_store_def sky_note_def)

section \<open>The consistency check\<close>

lemma similarities_loop_ok:
  assumes "list_all (\<lambda>(c, b). length c = length b) ps"
  shows "\<exists>sims. similarities_loop C ps = Inr sims \<and> length sims = length ps
    \<and> (\<forall>i<length ps. cosine_similarity C (fst (ps ! i)) (snd (ps ! i)) = Inr (sims ! i))"
  using assms
proof (induction ps)
  case Nil
  show ?case by simp
next
  case (Cons p ps)
  obtain c b where p: "p = (c, b)" by (cases p)
  with Cons.prems have len: "length c = length b" by simp
  then obtain sim where sim: "cosine_similarity C c b = Inr sim"
    by (simp add: cosine_similarity_def)
  from Cons obtain sims where sims: "similarities_loop C ps = Inr sims" "length sims = length ps"
    "\<forall>i<length ps. cosine_similarity C (fst (ps ! i)) (snd (ps ! i)) = Inr (sims ! i)"
    by auto
  have "\<forall>i<length (p # ps). cosine_similarity C (fst ((p # ps) ! i)) (snd ((p # ps) ! i))
      = Inr ((sim # sims) ! i)"
    using sims(3) sim p by (auto simp: nth_Cons split: nat.splits)
  then show ?case using sims sim p by simp
qed

lemma fold_min_in: "foldl (\<lambda>m s. if fl_lt s m then s else m) x xs \<in> set (x # xs)"
  by (induction xs arbitrary: x) auto

lemma fold_min_least:
  assumes "\<forall>y\<in>set (x # xs). y \<noteq> NaN"
  shows "\<forall>y\<in>set (x # xs). fl_ge y (foldl (\<lambda>m s. if fl_lt s m then s else m) x xs)"
  using assms
proof (induction xs arbitrary: x rule: rev_induct)
  case Nil
  then show ?case by (simp add: fl_ge_refl)
next
  case (snoc z xs)
  let ?m = "foldl (\<lambda>m s. if fl_lt s m then s else m) x xs"
  have IH: "\<forall>y\<in>set (x # xs). fl_ge y ?m" using snoc by simp
  have m: "?m \<noteq> NaN" using fold_min_in[of x xs] snoc.prems by auto
  have z: "z \<noteq> NaN" using snoc.prems by simp
  show ?case
  proof (cases "fl_lt z ?m")
    case True
    then have "fl_ge ?m z" by (rule fl_lt_imp_ge)
    with IH have "\<forall>y\<in>set (x # xs). fl_ge y z" using fl_ge_trans by blast
    with True z show ?thesis by (simp add: fl_ge_refl)
  next
    case False
    then have "fl_ge z ?m" using z m by (simp add: not_fl_lt_iff_ge)
    with False IH show ?thesis by simp
  qed
qed

lemma py_min_spec:
  assumes "sims \<noteq> []"
  shows "\<exists>m. py_min sims = Inr m \<and> m \<in> set sims
    \<and> ((\<forall>x\<in>set sims. x \<noteq> NaN) \<longrightarrow> (\<forall>x\<in>set sims. fl_ge x m))"
proof -
  from assms obtain x xs where s: "sims = x # xs" by (cases sims) auto
  show ?thesis unfolding s using fold_min_in[of x xs] fold_min_least[of x xs] by auto
qed

text \<open>
  With a persisted baseline, the model having encoded the phrases, the baseline and the
  encoding being non-empty and of equal dimensions pairwise: the check computes the
  cosine similarity of the pairs at equal indices; its drift signal \<open>m\<close> is one of them,
  and the least one when none is NaN; it reports consistent exactly when \<open>m\<close> is at least
  0.99, otherwise drift with \<open>m\<close> in the message; the baseline is left as it was.
\<close>

lemma check_consistency_minimum:
  assumes "encode_all C CALIBRATION_PHRASES = Inr current"
    and "list_all (\<lambda>(c, b). length c = length b) (zip current (c_embeddings cal))"
    and "current \<noteq> []" "c_embeddings cal \<noteq> []"
  shows "\<exists>sims m.
      length sims = min (length current) (length (c_embeddings cal))
    \<and> (\<forall>i<length sims. sims ! i =
          fl_div round64 (dot64 C (current ! i) (c_embeddings cal ! i))
            (fl_mul round64 (norm_current C (current ! i)) (norm_saved C (c_embeddings cal ! i))))
    \<and> m \<in> set sims
    \<and> ((\<forall>x\<in>set sims. x \<noteq> NaN) \<longrightarrow> (\<forall>x\<in>set sims. fl_ge x m))
    \<and> check_consistency C (Some cal)
        = Inr ((fl_ge m SIMILARITY_THRESHOLD,
                if fl_ge m SIMILARITY_THRESHOLD
                then ''Model consistent (min_sim='' @ fmt_4f C m @ '')''
                else ''MODEL DRIFT DETECTED! min_sim='' @ fmt_4f C m @ '' < 0.99''),
               Some cal)"
proof -
  let ?ps = "zip current (c_embeddings cal)"
  from similarities_loop_ok[OF assms(2), of C] obtain sims where
    sims: "similarities_loop C ?ps = Inr sims" "length sims = length ?ps"
      "\<forall>i<length ?ps. cosine_similarity C (fst (?ps ! i)) (snd (?ps ! i)) = Inr (sims ! i)"
    by blast
  have len: "length sims = min (length current) (length (c_embeddings cal))"
    using sims(2) by simp
  have "\<forall>i<length sims. cosine_similarity C (current ! i) (c_embeddings cal ! i) = Inr (sims ! i)"
    using sims(3) len by simp
  then have nth: "\<forall>i<length sims. sims ! i =
          fl_div round64 (dot64 C (current ! i) (c_embeddings cal ! i))
            (fl_mul round64 (norm_current C (current ! i)) (norm_saved C (c_embeddings cal ! i)))"
    by (auto simp: cosine_similarity_def split: if_splits)
  have "sims \<noteq> []" using len assms(3,4) by (cases current; cases "c_embeddings cal") auto
  from py_min_spec[OF this] obtain m where
    m: "py_min sims = Inr m" "m \<in> set sims"
      "(\<forall>x\<in>set sims. x \<noteq> NaN) \<longrightarrow> (\<forall>x\<in>set sims. fl_ge x m)"
    by blast
  have "check_consistency C (Some cal)
        = Inr ((fl_ge m SIMILARITY_THRESHOLD,
                if fl_ge m SIMILARITY_THRESHOLD
                then ''Model consistent (min_sim='' @ fmt_4f C m @ '')''
                else ''MODEL DRIFT DETECTED! min_sim='' @ fmt_4f C m @ '' < 0.99''),
               Some cal)"
    by (simp add: check_consistency_def assms(1) sims(1) m(1))
  with len nth m(2,3) show ?thesis by blast
qed

text \<open>Evaluations on the two baselines that hold a zero vector.\<close>

lemma zero_last_similarities:
  "similarities_loop demo_cal_env (zip [[Fin 44], [Fin 39], [Fin 40]] (c_embeddings zero_last_baseline))
     = Inr [Fin 1, Fin 1, NaN]"
  by code_simp

lemma zero_last_check:
  "check_consistency demo_cal_env (Some zero_last_baseline)
     = Inr ((True, ''Model consistent (min_sim=1.0000)''), Some zero_last_baseline)"
  by code_simp

lemma zero_first_check:
  "check_consistency demo_cal_env (Some zero_first_baseline)
     = Inr ((False, ''MODEL DRIFT DETECTED! min_sim=nan < 0.99''), Some zero_first_baseline)"
  by code_simp

text \<open>
  C7. A similarity that is NaN escapes the minimum. With a zero vector as the last
  embedding of the baseline, the similarities are 1, 1 and NaN: the third is not at least
  0.99, and yet \<open>min\<close> returns 1 and the check reports consistency. With the zero vector
  first, \<open>min\<close> returns NaN and the check reports drift.
\<close>

theorem nan_similarity_reported_consistent:
  "encode_all demo_cal_env CALIBRATION_PHRASES = Inr [[Fin 44], [Fin 39], [Fin 40]]
   \<and> similarities_loop demo_cal_env (zip [[Fin 44], [Fin 39], [Fin 40]] (c_embeddings zero_last_baseline))
       = Inr [Fin 1, Fin 1, NaN]
   \<and> \<not> fl_ge NaN SIMILARITY_THRESHOLD
   \<and> check_consistency demo_cal_env (Some zero_last_baseline)
       = Inr ((True, ''Model consistent (min_sim=1.0000)''), Some zero_last_baseline)
   \<and> check_consistency demo_cal_env (Some zero_first_baseline)
       = Inr ((False, ''MODEL DRIFT DETECTED! min_sim=nan < 0.99''), Some zero_first_baseline)"
proof -
  have "encode_all demo_cal_env CALIBRATION_PHRASES = Inr [[Fin 44], [Fin 39], [Fin 40]]"
    by (simp add: demo_cal_env_def CALIBRATION_PHRASES_def)
  moreover have "\<not> fl_ge NaN SIMILARITY_THRESHOLD" by simp
  ultimately show ?thesis
    using zero_last_similarities zero_last_check zero_first_check by (intro conjI)
qed

end
